theory Spec2Isabelle
  imports Complex_Main
begin

section \<open>JavaScript values used by DarkModeController\<close>

text \<open>
  A JavaScript number is NaN, one of the two infinities, or a finite double. Every finite
  double is a real number, and the controller only rounds a number and compares it with
  integer constants, which is exact on doubles, so a finite number is modelled by its
  real value.
\<close>

datatype jsnum = NaN | PosInf | NegInf | Fin real

text \<open>\<open>Math.round\<close>: the nearest integer, ties towards plus infinity; NaN and the
  infinities are returned as they are.\<close>

fun Math_round :: "jsnum \<Rightarrow> jsnum" where
  "Math_round (Fin r) = Fin (of_int \<lfloor>r + 1 / 2\<rfloor>)"
| "Math_round x = x"

text \<open>The relational operators: every comparison with NaN is false.\<close>

fun js_less :: "jsnum \<Rightarrow> jsnum \<Rightarrow> bool" where
  "js_less NaN _ = False"
| "js_less _ NaN = False"
| "js_less (Fin a) (Fin b) = (a < b)"
| "js_less PosInf _ = False"
| "js_less _ NegInf = False"
| "js_less NegInf _ = True"
| "js_less _ PosInf = True"

fun js_eq :: "jsnum \<Rightarrow> jsnum \<Rightarrow> bool" where
  "js_eq NaN _ = False"
| "js_eq _ NaN = False"
| "js_eq a b = (a = b)"

definition js_gt :: "jsnum \<Rightarrow> jsnum \<Rightarrow> bool" where
  "js_gt a b = js_less b a"

definition js_le :: "jsnum \<Rightarrow> jsnum \<Rightarrow> bool" where
  "js_le a b = (js_less a b \<or> js_eq a b)"

definition js_ge :: "jsnum \<Rightarrow> jsnum \<Rightarrow> bool" where
  "js_ge a b = (js_less b a \<or> js_eq a b)"

text \<open>
  The argument \<open>state\<close> of \<open>toggle\<close>: \<open>undefined\<close> (or \<open>null\<close>), a boolean, or a
  string such as \<open>'auto'\<close>.
\<close>

datatype jsarg = Undef | B bool | S string

datatype error = TypeError | ReferenceError

section \<open>The long-press timeout (constructor, lines 61 to 65)\<close>

text \<open>
  \<open>longPressTimeout\<close> is declared \<open>number\<close> and optional; a missing option is
  \<open>undefined\<close>, which \<open>Math.round\<close> turns into NaN. The source reads
  \<^verbatim>\<open>((t = Math.round(t)) > 0 && (t <= 10000 || (t = 10000)) && (t >= 1500 || (t = 1500))) || (t = 2000)\<close>
  where both assignments inside the conjunction yield a truthy number.
\<close>

definition resolveLongPressTimeout :: "jsnum option \<Rightarrow> jsnum" where
  "resolveLongPressTimeout opt =
     (let t = Math_round (case opt of None \<Rightarrow> NaN | Some n \<Rightarrow> n) in
      if js_gt t (Fin 0) then
        (let t1 = (if js_le t (Fin 10000) then t else Fin 10000);
             t2 = (if js_ge t1 (Fin 1500) then t1 else Fin 1500)
         in t2)
      else Fin 2000)"

section \<open>The controller and the host objects it touches\<close>

text \<open>
  Calls that leave the controller and reach the host (storage, DOM, timers, console),
  and the invocations of \<open>toggle\<close>, are recorded in a trace, so that "exactly one
  toggle" or "no storage write" can be stated.
\<close>

datatype call =
    Toggle jsarg bool
  | StorageWrite string string
  | AddEventListener nat string bool
  | RemoveEventListener nat string bool
  | AddFeedListener string
  | SetTimeout nat jsnum
  | ClearTimeout nat
  | ConsoleWarn

text \<open>
  The object kept under \<open>Symbol.for('dark-mode.toggler.handler.state')\<close> on the bound
  handler. \<open>target\<close> holds the identity of the pending element, \<open>timeout\<close> the handle
  returned by \<open>setTimeout\<close>, \<open>targets\<close> the insertion-ordered \<open>Set\<close> of documents.
\<close>

record handler_state =
  action :: "string option"
  committed :: "bool option"
  target :: "nat option"
  timeout :: "nat option"
  targets :: "nat list"

text \<open>
  \<open>mediaQueries\<close>: each feed is absent or present with the value of \<open>matches\<close> read
  at construction.
\<close>

record media_queries =
  prefersDarkMode :: "bool option"
  prefersLightMode :: "bool option"

text \<open>
  A live controller together with the host objects it holds references to. Documents,
  elements and timer handles are identified by numbers. \<open>localStorage\<close> is the content
  of the store object (absent when the controller has none), \<open>classList\<close> the class list
  of the container, \<open>listeners\<close> the registrations of the bound handler on documents
  as (document, event type, capture), \<open>feedListeners\<close> the feeds the bound handler was
  added to, \<open>timers\<close> the timer handles that are still pending in the host.
\<close>

record controller =
  id :: string
  scope :: string
  key :: string
  containerDocument :: nat
  onmouseupInContainer :: bool
  longPressTimeout :: jsnum
  mediaQueries :: media_queries
  localStorage :: "(string \<rightharpoonup> string) option"
  state :: "string option"
  prefers :: "string option"
  handlerState :: "handler_state option"
  classList :: "string set"
  listeners :: "(nat \<times> string \<times> bool) list"
  feedListeners :: "string list"
  timers :: "nat set"
  nextTimer :: nat
  trace :: "call list"

definition record_call :: "call \<Rightarrow> controller \<Rightarrow> controller" where
  "record_call x c = c\<lparr>trace := trace c @ [x]\<rparr>"

section \<open>toggle (lines 288 to 320)\<close>

text \<open>
  \<open>toggle\<close> is declared \<open>async\<close> but contains no \<open>await\<close>: its body runs to the end
  before the call returns. The container of a live controller is always set, so the
  branches on \<open>!this.container\<close> are not taken. The parameter \<open>auto\<close> is a boolean
  (\<open>undefined\<close> behaves as \<open>false\<close>).
\<close>

definition storage_write :: "string \<Rightarrow> controller \<Rightarrow> controller" where
  "storage_write v c =
     (case localStorage c of
        None \<Rightarrow> c
      | Some m \<Rightarrow>
          if key c = [] then c
          else record_call (StorageWrite (key c) v) (c\<lparr>localStorage := Some (m(key c \<mapsto> v))\<rparr>))"

definition nextState_of :: "jsarg \<Rightarrow> controller \<Rightarrow> bool" where
  "nextState_of st c =
     (case st of
        S s \<Rightarrow> if s = ''auto'' then prefers c \<noteq> Some ''light'' else s \<noteq> []
      | B b \<Rightarrow> b
      | Undef \<Rightarrow> ''dark-mode'' \<notin> classList c)"

definition apply_classes :: "bool \<Rightarrow> controller \<Rightarrow> controller" where
  "apply_classes nextState c =
     c\<lparr>classList :=
         insert (if nextState then ''dark-mode'' else ''light-mode'') (classList c)
         - {if nextState then ''light-mode'' else ''dark-mode''}\<rparr>"

definition toggle :: "jsarg \<Rightarrow> bool \<Rightarrow> controller \<Rightarrow> controller" where
  "toggle st auto c =
     (let c0 = record_call (Toggle st auto) c;
          c1 = (if auto then
                  (case st of
                     B True \<Rightarrow> c0\<lparr>prefers := Some ''dark''\<rparr>
                   | B False \<Rightarrow> c0\<lparr>prefers := Some ''light''\<rparr>
                   | _ \<Rightarrow> c0)
                else c0)
      in if auto \<and> state c1 \<noteq> Some ''auto'' then c1
         else
           (let nextState = nextState_of st c1;
                newState = (if st = S ''auto'' \<or> auto then ''auto''
                            else if nextState then ''enabled'' else ''disabled'');
                c2 = c1\<lparr>state := Some newState\<rparr>;
                c3 = storage_write newState c2
            in apply_classes nextState c3))"

section \<open>matchTrigger (lines 415 to 443)\<close>

text \<open>
  \<open>matchTrigger\<close> runs the regular expression
  \<^verbatim>\<open>/(^mouseup$|^mousedown$|^pointerup$|^pointerdown$|\blight\b|\bdark\b)|$/i\<close>
  and returns its first group. The flag \<open>i\<close> makes the letters match in either case,
  and the group holds the text as it stands in the input. When no alternative of the group
  matches, the final \<open>$\<close> matches at the end of the input and the group is
  \<open>undefined\<close>.
\<close>

text \<open>The code of a character, with the upper-case ASCII letters folded to lower case.\<close>

definition lower_code :: "char \<Rightarrow> nat" where
  "lower_code ch = (let n = (of_char ch :: nat) in if 65 \<le> n \<and> n \<le> 90 then n + 32 else n)"

definition word_char :: "char \<Rightarrow> bool" where
  "word_char ch =
     (let n = (of_char ch :: nat) in
      (48 \<le> n \<and> n \<le> 57) \<or> (65 \<le> n \<and> n \<le> 90) \<or> (97 \<le> n \<and> n \<le> 122) \<or> n = 95)"

definition matches_ci :: "string \<Rightarrow> string \<Rightarrow> bool" where
  "matches_ci word s = (map lower_code s = map of_char word)"

text \<open>A word \<open>w\<close> between two word boundaries at the head of \<open>s\<close>, where \<open>before\<close>
  tells whether the character in front of \<open>s\<close> is a word character.\<close>

definition word_here :: "string \<Rightarrow> bool \<Rightarrow> string \<Rightarrow> string option" where
  "word_here w before s =
     (if \<not> before \<and> matches_ci w (take (length w) s)
         \<and> (case drop (length w) s of [] \<Rightarrow> True | ch # _ \<Rightarrow> \<not> word_char ch)
      then Some (take (length w) s) else None)"

fun find_scheme :: "bool \<Rightarrow> string \<Rightarrow> string option" where
  "find_scheme before [] = None"
| "find_scheme before (ch # s) =
     (case word_here ''light'' before (ch # s) of
        Some m \<Rightarrow> Some m
      | None \<Rightarrow>
          (case word_here ''dark'' before (ch # s) of
             Some m \<Rightarrow> Some m
           | None \<Rightarrow> find_scheme (word_char ch) s))"

definition matchTrigger :: "string \<Rightarrow> string option" where
  "matchTrigger source =
     (if matches_ci ''mouseup'' source \<or> matches_ci ''mousedown'' source
         \<or> matches_ci ''pointerup'' source \<or> matches_ci ''pointerdown'' source
      then Some source
      else find_scheme False source)"

section \<open>handleEvent (lines 182 to 282)\<close>

text \<open>
  The object an event was dispatched to: its identity and the value of its
  \<open>ownerDocument\<close> property (absent on a \<open>MediaQueryList\<close>). An event carries the
  properties the handler reads; the handler is also called with no argument at all, by the
  timer it starts.
\<close>

record event_target =
  nodeId :: nat
  ownerDocument :: "nat option"

record event =
  ev_target :: "event_target option"
  ev_media :: "string option"
  ev_type :: "string option"
  ev_matches :: bool

definition upEventName :: "controller \<Rightarrow> string" where
  "upEventName c = (if onmouseupInContainer c then ''mouseup'' else ''pointerup'')"

text \<open>A listener list holds a registration once, in the order of the calls.\<close>

definition add_once :: "'a \<Rightarrow> 'a list \<Rightarrow> 'a list" where
  "add_once x xs = (if x \<in> set xs then xs else xs @ [x])"

definition addEventListener :: "nat \<Rightarrow> string \<Rightarrow> bool \<Rightarrow> controller \<Rightarrow> controller" where
  "addEventListener d name capture c =
     record_call (AddEventListener d name capture)
       (c\<lparr>listeners := add_once (d, name, capture) (listeners c)\<rparr>)"

definition removeEventListener :: "nat \<Rightarrow> string \<Rightarrow> bool \<Rightarrow> controller \<Rightarrow> controller" where
  "removeEventListener d name capture c =
     record_call (RemoveEventListener d name capture)
       (c\<lparr>listeners := removeAll (d, name, capture) (listeners c)\<rparr>)"

text \<open>
  Lines 184 to 198: the handler state is created, and the first up-listener installed, the
  first time the bound handler runs. The bound handler of a live controller always has
  its controller, a container and the container's document, so the \<open>ReferenceError\<close>
  of line 201 is raised only when the method is invoked without a controller.
\<close>

definition obtain_handlerState :: "controller \<Rightarrow> handler_state \<times> controller" where
  "obtain_handlerState c =
     (case handlerState c of
        Some hs \<Rightarrow> (hs, c)
      | None \<Rightarrow>
          (let c1 = addEventListener (containerDocument c) (upEventName c) True c;
               hs = \<lparr>action = None, committed = None, target = None, timeout = None,
                      targets = [containerDocument c]\<rparr>
           in (hs, c1\<lparr>handlerState := Some hs\<rparr>)))"

definition trigger_of :: "event option \<Rightarrow> string option" where
  "trigger_of event =
     (case event of
        None \<Rightarrow> None
      | Some ev \<Rightarrow>
          (let type_string = (case ev_type ev of None \<Rightarrow> ''undefined'' | Some t \<Rightarrow> t) in
           matchTrigger (case ev_media ev of
                           None \<Rightarrow> type_string
                         | Some m \<Rightarrow> if m = [] then type_string else m)))"

text \<open>Lines 215 to 218.\<close>

definition clear_pending_timeout :: "handler_state \<Rightarrow> controller \<Rightarrow> handler_state \<times> controller" where
  "clear_pending_timeout hs c =
     (case timeout hs of
        None \<Rightarrow> (hs, c)
      | Some h \<Rightarrow> (hs\<lparr>timeout := None\<rparr>, record_call (ClearTimeout h) (c\<lparr>timers := timers c - {h}\<rparr>)))"

text \<open>Lines 220 to 224.\<close>

definition register_document :: "nat option \<Rightarrow> handler_state \<Rightarrow> controller \<Rightarrow> handler_state \<times> controller" where
  "register_document ownerDoc hs c =
     (case ownerDoc of
        None \<Rightarrow> (hs, c)
      | Some d \<Rightarrow>
          if d = containerDocument c \<or> d \<in> set (targets hs) then (hs, c)
          else (hs\<lparr>targets := targets hs @ [d]\<rparr>, addEventListener d (upEventName c) True c))"

definition setTimeout :: "controller \<Rightarrow> nat \<times> controller" where
  "setTimeout c =
     (let h = nextTimer c in
      (h, record_call (SetTimeout h (longPressTimeout c))
            (c\<lparr>timers := insert h (timers c), nextTimer := Suc h\<rparr>)))"

definition release :: "handler_state \<Rightarrow> handler_state" where
  "release hs = hs\<lparr>action := Some ''release'', committed := None, target := None\<rparr>"

text \<open>Lines 226 to 280: the \<open>switch\<close> on the trigger.\<close>

definition dispatch ::
  "string option \<Rightarrow> event option \<Rightarrow> event_target option \<Rightarrow> nat option
     \<Rightarrow> handler_state \<Rightarrow> controller \<Rightarrow> handler_state \<times> controller" where
  "dispatch trigger event tgt ownerDoc hs c =
     (if trigger = Some ''dark'' \<or> trigger = Some ''light'' then
        (hs\<lparr>committed := None, target := None\<rparr>,
         if (case event of None \<Rightarrow> False | Some ev \<Rightarrow> ev_matches ev)
         then toggle (B (trigger = Some ''dark'')) True c else c)
      else if trigger = None then
        (if target hs \<noteq> None \<and> committed hs = Some False
         then (hs\<lparr>action := Some ''auto'', committed := Some True\<rparr>, toggle (S ''auto'') False c)
         else (hs\<lparr>action := Some ''ignore''\<rparr>, c))
      else if trigger = Some ''mouseup'' \<or> trigger = Some ''pointerup'' then
        (if target hs = None then (hs\<lparr>action := Some ''ignore''\<rparr>, c)
         else if target hs = map_option nodeId tgt \<and> committed hs = Some False
         then (hs\<lparr>action := Some ''toggle'', committed := None, target := None\<rparr>,
               toggle Undef False c)
         else (release hs, c))
      else if trigger = Some ''mousedown'' \<or> trigger = Some ''pointerdown'' then
        (case (tgt, ownerDoc) of
           (Some t, Some d) \<Rightarrow>
             (let (h, c1) = setTimeout c in
              (hs\<lparr>action := Some ''capture'', committed := Some False,
                  target := Some (nodeId t), timeout := Some h\<rparr>, c1))
         | _ \<Rightarrow>
             if target hs = None then (hs\<lparr>action := Some ''ignore''\<rparr>, c)
             else (release hs, c))
      else (hs, record_call ConsoleWarn c))"

definition handleEvent :: "event option \<Rightarrow> controller \<Rightarrow> controller" where
  "handleEvent event c =
     (let (hs0, c0) = obtain_handlerState c;
          tgt = (case event of None \<Rightarrow> None | Some ev \<Rightarrow> ev_target ev);
          trigger = trigger_of event;
          ownerDoc = (case tgt of None \<Rightarrow> None | Some t \<Rightarrow> ownerDocument t);
          (hs1, c1) = clear_pending_timeout hs0 c0;
          (hs2, c2) = register_document ownerDoc hs1 c1;
          (hs3, c3) = dispatch trigger event tgt ownerDoc hs2 c2
      in c3\<lparr>handlerState := Some hs3\<rparr>)"

text \<open>The method as it is invoked: without a controller it throws (line 201).\<close>

definition handleEvent_invoked :: "controller option \<Rightarrow> event option \<Rightarrow> error + controller" where
  "handleEvent_invoked this event =
     (case this of None \<Rightarrow> Inl ReferenceError | Some c \<Rightarrow> Inr (handleEvent event c))"

text \<open>Delivering a sequence of events, first to last.\<close>

fun deliver :: "event option list \<Rightarrow> controller \<Rightarrow> controller" where
  "deliver [] c = c"
| "deliver (e # es) c = deliver es (handleEvent e c)"

section \<open>detach (lines 109 to 119)\<close>

text \<open>
  Destructuring the handler state throws a \<open>TypeError\<close> when the state does not exist.
  The loop visits every document of the set, deleting it and calling
  \<open>removeEventListener\<close> four times; the third argument is not given, so the capture
  flag of these calls is false.
\<close>

definition delete_target :: "nat \<Rightarrow> controller \<Rightarrow> controller" where
  "delete_target d c =
     c\<lparr>handlerState := map_option (\<lambda>hs. hs\<lparr>targets := removeAll d (targets hs)\<rparr>) (handlerState c)\<rparr>"

fun detach_loop :: "nat list \<Rightarrow> controller \<Rightarrow> controller" where
  "detach_loop [] c = c"
| "detach_loop (d # ds) c =
     detach_loop ds
       (removeEventListener d ''onpointerup'' False
         (removeEventListener d ''onpointerdown'' False
           (removeEventListener d ''onmouseup'' False
             (removeEventListener d ''onmousedown'' False
               (delete_target d c)))))"

definition detach :: "controller \<Rightarrow> error + controller" where
  "detach c =
     (case handlerState c of
        None \<Rightarrow> Inl TypeError
      | Some hs \<Rightarrow> if targets hs = [] then Inr c else Inr (detach_loop (targets hs) c))"

section \<open>The constructor (lines 20 to 107)\<close>

text \<open>
  What the constructor reads from the host. A document is valid when it is a document
  node with a window whose document it is (\<open>getValidDocumentFrom\<close>);
  \<open>doc_localStorage\<close> is \<open>defaultView.localStorage\<close>; \<open>doc_mediaQueries\<close> is the
  record \<open>getMediaQueriesFromContainer\<close> returns for the document (both feeds, or none
  when \<open>matchMedia\<close> throws); \<open>doc_pathname\<close> is \<open>new URL(scope, href).pathname\<close>,
  absent where \<open>new URL\<close> throws. The container is an \<open>HTMLElement\<close>, which always
  has an owner document.
\<close>

record document =
  doc_id :: nat
  doc_valid :: bool
  doc_localStorage :: "(string \<rightharpoonup> string) option"
  doc_mediaQueries :: media_queries
  doc_pathname :: "string \<Rightarrow> string option"

record element =
  el_ownerDocument :: document
  el_classList :: "string set"
  el_onmouseup :: bool

text \<open>
  \<open>windowIsSelf\<close> is \<open>typeof window === 'object' && window.self === window\<close>,
  \<open>documentBody\<close> is \<open>window.document && window.document.body\<close>, \<open>hasURL\<close> is
  \<open>typeof URL === 'function'\<close>.
\<close>

record host =
  windowIsSelf :: bool
  documentBody :: "element option"
  hasURL :: bool

record options =
  opt_localStorage :: "(string \<rightharpoonup> string) option"
  opt_scope :: "string option"
  opt_id :: "string option"
  opt_longPressTimeout :: "jsnum option"

datatype construct_result = Threw error | Mock | Live controller

definition getValidDocumentFrom :: "element \<Rightarrow> document option" where
  "getValidDocumentFrom node =
     (if doc_valid (el_ownerDocument node) then Some (el_ownerDocument node) else None)"

definition getLocalStorageFromContainer :: "element \<Rightarrow> (string \<rightharpoonup> string) option" where
  "getLocalStorageFromContainer container = doc_localStorage (el_ownerDocument container)"

definition getMediaQueriesFromContainer :: "element \<Rightarrow> media_queries" where
  "getMediaQueriesFromContainer container = doc_mediaQueries (el_ownerDocument container)"

text \<open>\<open>matchID\<close> and \<open>matchScope\<close>, the first group of \<^verbatim>\<open>/(^\S{2,}$|$)/\<close>: the
  input when it is two or more characters without white space, the empty string
  otherwise.\<close>

definition white_space :: "char \<Rightarrow> bool" where
  "white_space ch = ((of_char ch :: nat) \<in> {9, 10, 11, 12, 13, 32, 160})"

definition matchID :: "string \<Rightarrow> string" where
  "matchID source = (if 2 \<le> length source \<and> filter white_space source = [] then source else [])"

definition matchScope :: "string \<Rightarrow> string" where
  "matchScope source = matchID source"

definition resolve_id :: "string option \<Rightarrow> string" where
  "resolve_id i = (case i of None \<Rightarrow> [] | Some s \<Rightarrow> if s = [] then [] else matchID s)"

definition resolve_scope :: "host \<Rightarrow> document \<Rightarrow> string option \<Rightarrow> string option" where
  "resolve_scope h doc sc =
     (if hasURL h
      then doc_pathname doc (case sc of None \<Rightarrow> ''./'' | Some s \<Rightarrow> if s = [] then ''./'' else s)
      else Some (''/'' @ (case sc of None \<Rightarrow> [] | Some s \<Rightarrow> if s = [] then [] else matchScope s) @ ''/''))"

definition addFeedListener :: "string \<Rightarrow> controller \<Rightarrow> controller" where
  "addFeedListener feed c =
     record_call (AddFeedListener feed) (c\<lparr>feedListeners := add_once feed (feedListeners c)\<rparr>)"

definition subscribe_feeds :: "controller \<Rightarrow> controller" where
  "subscribe_feeds c =
     (let c1 = (case prefersDarkMode (mediaQueries c) of
                  None \<Rightarrow> c
                | Some feed \<Rightarrow> addFeedListener ''prefersDarkMode'' c)
      in case prefersLightMode (mediaQueries c1) of
           None \<Rightarrow> c1
         | Some feed \<Rightarrow> addFeedListener ''prefersLightMode'' c1)"

text \<open>Lines 86 to 101: the initial state, resolved only when there is a store.\<close>

definition resolve_initial_state :: "controller \<Rightarrow> controller" where
  "resolve_initial_state c =
     (case localStorage c of
        None \<Rightarrow> c
      | Some m \<Rightarrow>
          subscribe_feeds
            (if m (key c) = Some ''enabled'' then toggle (B True) False (c\<lparr>state := Some ''enabled''\<rparr>)
             else if m (key c) = Some ''disabled'' then toggle (B False) False (c\<lparr>state := Some ''disabled''\<rparr>)
             else
               (let dark = (prefersDarkMode (mediaQueries c) = Some True
                            \<or> prefersLightMode (mediaQueries c) \<noteq> Some True);
                    c1 = record_call (StorageWrite (key c) ''auto'')
                           (c\<lparr>state := Some ''auto'',
                              localStorage := Some (m(key c \<mapsto> ''auto''))\<rparr>)
                in toggle (B dark) True c1)))"

text \<open>
  Lines 20 to 84: the container, the owner document, the options and the properties of
  the new object. The result is the controller as it is before its state is resolved, an
  exception, or the inert object returned outside a live window.
\<close>

definition define_properties :: "element option \<Rightarrow> options \<Rightarrow> host \<Rightarrow> construct_result" where
  "define_properties container opts h =
     (let container1 = (case container of
                          Some el \<Rightarrow> Some el
                        | None \<Rightarrow> if windowIsSelf h then documentBody h else None);
          invalid = (if windowIsSelf h then Threw TypeError else Mock)
      in case container1 of
           None \<Rightarrow> invalid
         | Some el \<Rightarrow>
             (case getValidDocumentFrom el of
                None \<Rightarrow> invalid
              | Some doc \<Rightarrow>
                  (case resolve_scope h doc (opt_scope opts) of
                     None \<Rightarrow> Threw TypeError
                   | Some sc \<Rightarrow>
                       (let i = resolve_id (opt_id opts);
                            store = (case opt_localStorage opts of
                                       Some m \<Rightarrow> Some m
                                     | None \<Rightarrow> getLocalStorageFromContainer el)
                        in Live
                             \<lparr>id = i, scope = sc,
                              key = ''dark-mode-state@'' @ sc @ (if i = [] then [] else ''#'' @ i),
                              containerDocument = doc_id doc,
                              onmouseupInContainer = el_onmouseup el,
                              longPressTimeout = resolveLongPressTimeout (opt_longPressTimeout opts),
                              mediaQueries = getMediaQueriesFromContainer el,
                              localStorage = store,
                              state = None, prefers = None, handlerState = None,
                              classList = el_classList el,
                              listeners = [], feedListeners = [],
                              timers = {}, nextTimer = 1, trace = []\<rparr>))))"

definition construct :: "element option \<Rightarrow> options \<Rightarrow> host \<Rightarrow> construct_result" where
  "construct container opts h =
     (case define_properties container opts h of
        Live c \<Rightarrow> Live (resolve_initial_state c)
      | r \<Rightarrow> r)"

section \<open>Properties stated about traces and handler states\<close>

text \<open>The part of \<open>handleEvent\<close> in front of the \<open>switch\<close>, and the two values it
  reads from the event.\<close>

definition before_switch :: "nat option \<Rightarrow> controller \<Rightarrow> handler_state \<times> controller" where
  "before_switch ownerDoc c =
     (let (hs0, c0) = obtain_handlerState c;
          (hs1, c1) = clear_pending_timeout hs0 c0
      in register_document ownerDoc hs1 c1)"

definition event_node :: "event option \<Rightarrow> event_target option" where
  "event_node event = (case event of None \<Rightarrow> None | Some ev \<Rightarrow> ev_target ev)"

definition event_owner :: "event option \<Rightarrow> nat option" where
  "event_owner event = (case event_node event of None \<Rightarrow> None | Some t \<Rightarrow> ownerDocument t)"

fun is_toggle :: "call \<Rightarrow> bool" where
  "is_toggle (Toggle st auto) = True"
| "is_toggle _ = False"

fun is_storage_write :: "call \<Rightarrow> bool" where
  "is_storage_write (StorageWrite k v) = True"
| "is_storage_write _ = False"

definition toggles :: "controller \<Rightarrow> call list" where
  "toggles c = filter is_toggle (trace c)"

definition storage_writes :: "controller \<Rightarrow> call list" where
  "storage_writes c = filter is_storage_write (trace c)"

text \<open>The invariant of the handler state as the specification words it: the timer
  handle is set if and only if a target is pending and \<open>committed\<close> is \<open>false\<close>.\<close>

definition timer_invariant :: "handler_state \<Rightarrow> bool" where
  "timer_invariant hs = ((timeout hs \<noteq> None) = (target hs \<noteq> None \<and> committed hs = Some False))"

text \<open>The triggers for which the \<open>switch\<close> has a case; any other goes to \<open>default\<close>.\<close>

definition recognised :: "string option \<Rightarrow> bool" where
  "recognised trigger =
     (trigger = None \<or> trigger = Some ''dark'' \<or> trigger = Some ''light''
      \<or> trigger = Some ''mouseup'' \<or> trigger = Some ''pointerup''
      \<or> trigger = Some ''mousedown'' \<or> trigger = Some ''pointerdown'')"

text \<open>The mode agrees with the marker on the container.\<close>

definition markers_agree :: "controller \<Rightarrow> bool" where
  "markers_agree c =
     ((state c = Some ''enabled'' \<longrightarrow> ''dark-mode'' \<in> classList c)
      \<and> (state c = Some ''disabled'' \<longrightarrow> ''dark-mode'' \<notin> classList c))"

section \<open>A concrete host\<close>

text \<open>
  A page whose window prefers the light scheme, with a container without classes, and
  the events of one gesture on element 7 of document 0.
\<close>

definition example_document :: "(string \<rightharpoonup> string) option \<Rightarrow> document" where
  "example_document store =
     \<lparr>doc_id = 0, doc_valid = True, doc_localStorage = store,
      doc_mediaQueries = \<lparr>prefersDarkMode = Some False, prefersLightMode = Some True\<rparr>,
      doc_pathname = (\<lambda>s. Some ''/'')\<rparr>"

definition example_container :: "(string \<rightharpoonup> string) option \<Rightarrow> element" where
  "example_container store =
     \<lparr>el_ownerDocument = example_document store, el_classList = {}, el_onmouseup = True\<rparr>"

definition example_host :: host where
  "example_host = \<lparr>windowIsSelf = True, documentBody = None, hasURL = True\<rparr>"

definition no_options :: options where
  "no_options = \<lparr>opt_localStorage = None, opt_scope = None, opt_id = None,
                  opt_longPressTimeout = None\<rparr>"

definition element_7 :: event_target where
  "element_7 = \<lparr>nodeId = 7, ownerDocument = Some 0\<rparr>"

definition pointer_event :: "string \<Rightarrow> event" where
  "pointer_event name =
     \<lparr>ev_target = Some element_7, ev_media = None, ev_type = Some name, ev_matches = False\<rparr>"

definition media_event :: "string \<Rightarrow> bool \<Rightarrow> event" where
  "media_event media m =
     \<lparr>ev_target = Some \<lparr>nodeId = 100, ownerDocument = None\<rparr>,
      ev_media = Some media, ev_type = Some ''change'', ev_matches = m\<rparr>"

text \<open>The controller the constructor returns on this page when there is no store.\<close>

definition storeless_controller :: controller where
  "storeless_controller =
     \<lparr>id = [], scope = ''/'', key = ''dark-mode-state@/'',
      containerDocument = 0, onmouseupInContainer = True, longPressTimeout = Fin 2000,
      mediaQueries = \<lparr>prefersDarkMode = Some False, prefersLightMode = Some True\<rparr>,
      localStorage = None, state = None, prefers = None, handlerState = None,
      classList = {}, listeners = [], feedListeners = [],
      timers = {}, nextTimer = 1, trace = []\<rparr>"

text \<open>The controller the constructor returns on this page with an empty store.\<close>

definition fresh_controller :: controller where
  "fresh_controller =
     \<lparr>id = [], scope = ''/'', key = ''dark-mode-state@/'',
      containerDocument = 0, onmouseupInContainer = True, longPressTimeout = Fin 2000,
      mediaQueries = \<lparr>prefersDarkMode = Some False, prefersLightMode = Some True\<rparr>,
      localStorage = Some [''dark-mode-state@/'' \<mapsto> ''auto''],
      state = Some ''auto'', prefers = Some ''light'', handlerState = None,
      classList = {''light-mode''}, listeners = [],
      feedListeners = [''prefersDarkMode'', ''prefersLightMode''],
      timers = {}, nextTimer = 1,
      trace = [StorageWrite ''dark-mode-state@/'' ''auto'', Toggle (B False) True,
               StorageWrite ''dark-mode-state@/'' ''auto'',
               AddFeedListener ''prefersDarkMode'', AddFeedListener ''prefersLightMode'']\<rparr>"

section \<open>The steps of the handler and of toggle\<close>

lemma handleEvent_phases:
  "handleEvent event c =
     (case before_switch (event_owner event) c of
        (hs2, c2) \<Rightarrow>
          (case dispatch (trigger_of event) event (event_node event) (event_owner event) hs2 c2 of
             (hs3, c3) \<Rightarrow> c3\<lparr>handlerState := Some hs3\<rparr>))"
  by (simp add: handleEvent_def before_switch_def event_owner_def event_node_def Let_def
      split: prod.splits)

lemmas pre_defs = before_switch_def obtain_handlerState_def clear_pending_timeout_def
  register_document_def addEventListener_def record_call_def Let_def

lemma before_switch_handler:
  "before_switch od c = (hs2, c2) \<Longrightarrow>
     timeout hs2 = None
     \<and> target hs2 = (case handlerState c of None \<Rightarrow> None | Some hs \<Rightarrow> target hs)
     \<and> committed hs2 = (case handlerState c of None \<Rightarrow> None | Some hs \<Rightarrow> committed hs)"
  by (auto simp add: pre_defs split: option.splits if_splits)

lemma before_switch_frame:
  "before_switch od c = (hs2, c2) \<Longrightarrow>
     state c2 = state c \<and> prefers c2 = prefers c \<and> classList c2 = classList c
     \<and> localStorage c2 = localStorage c \<and> key c2 = key c
     \<and> feedListeners c2 = feedListeners c \<and> nextTimer c2 = nextTimer c
     \<and> longPressTimeout c2 = longPressTimeout c"
  by (auto simp add: pre_defs split: option.splits if_splits)

lemma before_switch_trace:
  "before_switch od c = (hs2, c2) \<Longrightarrow>
     toggles c2 = toggles c \<and> storage_writes c2 = storage_writes c"
  by (auto simp add: pre_defs toggles_def storage_writes_def split: option.splits if_splits)

lemma before_switch_timers:
  "before_switch od c = (hs2, c2) \<Longrightarrow>
     timers c2 = timers c - (case handlerState c of None \<Rightarrow> {} | Some hs \<Rightarrow> set_option (timeout hs))"
  by (auto simp add: pre_defs split: option.splits if_splits)

lemma dispatch_down:
  "trigger = Some ''mousedown'' \<or> trigger = Some ''pointerdown'' \<Longrightarrow>
   dispatch trigger e (Some t) (Some d) hs c =
     (hs\<lparr>action := Some ''capture'', committed := Some False,
         target := Some (nodeId t), timeout := Some (nextTimer c)\<rparr>,
      record_call (SetTimeout (nextTimer c) (longPressTimeout c))
        (c\<lparr>timers := insert (nextTimer c) (timers c), nextTimer := Suc (nextTimer c)\<rparr>))"
  by (erule disjE; simp add: dispatch_def setTimeout_def Let_def)

lemma dispatch_up:
  "trigger = Some ''mouseup'' \<or> trigger = Some ''pointerup'' \<Longrightarrow>
   dispatch trigger e tgt od hs c =
     (if target hs = None then (hs\<lparr>action := Some ''ignore''\<rparr>, c)
      else if target hs = map_option nodeId tgt \<and> committed hs = Some False
      then (hs\<lparr>action := Some ''toggle'', committed := None, target := None\<rparr>,
            toggle Undef False c)
      else (release hs, c))"
  by (erule disjE; simp add: dispatch_def)

lemma dispatch_timer:
  "dispatch None e tgt od hs c =
     (if target hs \<noteq> None \<and> committed hs = Some False
      then (hs\<lparr>action := Some ''auto'', committed := Some True\<rparr>, toggle (S ''auto'') False c)
      else (hs\<lparr>action := Some ''ignore''\<rparr>, c))"
  by (simp add: dispatch_def)

lemma dispatch_scheme:
  "trigger = Some ''dark'' \<or> trigger = Some ''light'' \<Longrightarrow>
   dispatch trigger e tgt od hs c =
     (hs\<lparr>committed := None, target := None\<rparr>,
      if (case e of None \<Rightarrow> False | Some ev \<Rightarrow> ev_matches ev)
      then toggle (B (trigger = Some ''dark'')) True c else c)"
  by (erule disjE; simp add: dispatch_def)

lemma dispatch_default:
  "\<not> recognised trigger \<Longrightarrow> dispatch trigger e tgt od hs c = (hs, record_call ConsoleWarn c)"
  by (cases trigger) (simp_all add: dispatch_def recognised_def)

lemma toggle_unfold:
  "toggle st a c =
     (let c1 = (c\<lparr>trace := trace c @ [Toggle st a]\<rparr>)
                 \<lparr>prefers := (if a \<and> st = B True then Some ''dark''
                              else if a \<and> st = B False then Some ''light'' else prefers c)\<rparr>
      in if a \<and> state c \<noteq> Some ''auto'' then c1
         else apply_classes (nextState_of st c1)
                (storage_write (if st = S ''auto'' \<or> a then ''auto''
                                else if nextState_of st c1 then ''enabled'' else ''disabled'')
                   (c1\<lparr>state := Some (if st = S ''auto'' \<or> a then ''auto''
                                else if nextState_of st c1 then ''enabled'' else ''disabled'')\<rparr>)))"
  by (cases st; cases a) (auto simp add: toggle_def record_call_def Let_def split: bool.splits)

lemma storage_write_frame:
  "handlerState (storage_write v c) = handlerState c \<and> timers (storage_write v c) = timers c
   \<and> nextTimer (storage_write v c) = nextTimer c \<and> listeners (storage_write v c) = listeners c
   \<and> feedListeners (storage_write v c) = feedListeners c \<and> key (storage_write v c) = key c
   \<and> longPressTimeout (storage_write v c) = longPressTimeout c
   \<and> state (storage_write v c) = state c \<and> prefers (storage_write v c) = prefers c
   \<and> classList (storage_write v c) = classList c
   \<and> toggles (storage_write v c) = toggles c"
  by (simp add: storage_write_def record_call_def toggles_def split: option.splits)

lemma apply_classes_frame:
  "handlerState (apply_classes b c) = handlerState c \<and> timers (apply_classes b c) = timers c
   \<and> nextTimer (apply_classes b c) = nextTimer c \<and> listeners (apply_classes b c) = listeners c
   \<and> feedListeners (apply_classes b c) = feedListeners c \<and> key (apply_classes b c) = key c
   \<and> longPressTimeout (apply_classes b c) = longPressTimeout c
   \<and> state (apply_classes b c) = state c \<and> prefers (apply_classes b c) = prefers c
   \<and> localStorage (apply_classes b c) = localStorage c
   \<and> trace (apply_classes b c) = trace c \<and> toggles (apply_classes b c) = toggles c
   \<and> storage_writes (apply_classes b c) = storage_writes c"
  by (simp add: apply_classes_def toggles_def storage_writes_def)

lemma toggle_frame:
  "handlerState (toggle st a c) = handlerState c \<and> timers (toggle st a c) = timers c
   \<and> nextTimer (toggle st a c) = nextTimer c \<and> listeners (toggle st a c) = listeners c
   \<and> feedListeners (toggle st a c) = feedListeners c \<and> key (toggle st a c) = key c
   \<and> longPressTimeout (toggle st a c) = longPressTimeout c"
  by (simp add: toggle_unfold Let_def storage_write_frame apply_classes_frame)

lemma toggle_toggles: "toggles (toggle st a c) = toggles c @ [Toggle st a]"
  by (simp add: toggle_unfold Let_def storage_write_frame apply_classes_frame) (simp add: toggles_def)

lemma toggle_invert:
  "state (toggle Undef False c) =
     Some (if ''dark-mode'' \<in> classList c then ''disabled'' else ''enabled'')
   \<and> classList (toggle Undef False c) =
       (if ''dark-mode'' \<in> classList c
        then insert ''light-mode'' (classList c) - {''dark-mode''}
        else insert ''dark-mode'' (classList c) - {''light-mode''})"
  by (simp add: toggle_unfold Let_def storage_write_frame apply_classes_frame nextState_of_def)
     (simp add: apply_classes_def storage_write_frame)

lemma toggle_auto: "state (toggle (S ''auto'') False c) = Some ''auto''"
  by (simp add: toggle_unfold Let_def storage_write_frame apply_classes_frame)

lemma pre_handler:
  "timeout (fst (before_switch od c)) = None"
  "target (fst (before_switch od c)) = (case handlerState c of None \<Rightarrow> None | Some hs \<Rightarrow> target hs)"
  "committed (fst (before_switch od c)) = (case handlerState c of None \<Rightarrow> None | Some hs \<Rightarrow> committed hs)"
  using before_switch_handler [OF surjective_pairing, of od c] by simp_all

lemma pre_frame:
  "state (snd (before_switch od c)) = state c"
  "prefers (snd (before_switch od c)) = prefers c"
  "classList (snd (before_switch od c)) = classList c"
  "localStorage (snd (before_switch od c)) = localStorage c"
  "key (snd (before_switch od c)) = key c"
  "feedListeners (snd (before_switch od c)) = feedListeners c"
  "nextTimer (snd (before_switch od c)) = nextTimer c"
  "longPressTimeout (snd (before_switch od c)) = longPressTimeout c"
  "toggles (snd (before_switch od c)) = toggles c"
  "storage_writes (snd (before_switch od c)) = storage_writes c"
  "timers (snd (before_switch od c)) =
     timers c - (case handlerState c of None \<Rightarrow> {} | Some hs \<Rightarrow> set_option (timeout hs))"
  using before_switch_frame [OF surjective_pairing, of od c]
    before_switch_trace [OF surjective_pairing, of od c]
    before_switch_timers [OF surjective_pairing, of od c] by simp_all

lemma handleEvent_steps:
  "handleEvent event c =
     snd (dispatch (trigger_of event) event (event_node event) (event_owner event)
            (fst (before_switch (event_owner event) c)) (snd (before_switch (event_owner event) c)))
     \<lparr>handlerState :=
        Some (fst (dispatch (trigger_of event) event (event_node event) (event_owner event)
            (fst (before_switch (event_owner event) c)) (snd (before_switch (event_owner event) c))))\<rparr>"
  by (simp add: handleEvent_phases split: prod.splits)

lemma handleEvent_down:
  assumes "trigger_of (Some d) = Some ''mousedown'' \<or> trigger_of (Some d) = Some ''pointerdown''"
    and "ev_target d = Some t" and "ownerDocument t = Some doc"
  shows "handleEvent (Some d) c =
     (record_call (SetTimeout (nextTimer c) (longPressTimeout c))
        ((snd (before_switch (Some doc) c))
           \<lparr>timers := insert (nextTimer c) (timers (snd (before_switch (Some doc) c))),
            nextTimer := Suc (nextTimer c)\<rparr>))
     \<lparr>handlerState := Some ((fst (before_switch (Some doc) c))
         \<lparr>action := Some ''capture'', committed := Some False,
          target := Some (nodeId t), timeout := Some (nextTimer c)\<rparr>)\<rparr>"
proof -
  have ev: "event_node (Some d) = Some t" "event_owner (Some d) = Some doc"
    using assms(2,3) by (simp_all add: event_node_def event_owner_def)
  show ?thesis
    unfolding handleEvent_steps ev
    by (simp add: dispatch_down [OF assms(1)] pre_frame)
qed

lemma handleEvent_up:
  assumes "trigger_of (Some u) = Some ''mouseup'' \<or> trigger_of (Some u) = Some ''pointerup''"
    and "handlerState c = Some hs" and "target hs = Some n"
  shows "handleEvent (Some u) c =
     (if Some n = map_option nodeId (ev_target u) \<and> committed hs = Some False
      then (toggle Undef False (snd (before_switch (event_owner (Some u)) c)))
             \<lparr>handlerState := Some ((fst (before_switch (event_owner (Some u)) c))
                \<lparr>action := Some ''toggle'', committed := None, target := None\<rparr>)\<rparr>
      else (snd (before_switch (event_owner (Some u)) c))
             \<lparr>handlerState := Some (release (fst (before_switch (event_owner (Some u)) c)))\<rparr>)"
proof -
  have ev: "event_node (Some u) = ev_target u"
    by (simp add: event_node_def)
  show ?thesis
    unfolding handleEvent_steps ev
    using assms(2,3)
    by (simp add: dispatch_up [OF assms(1)] pre_handler)
qed

lemma handleEvent_timer:
  assumes "handlerState c = Some hs"
  shows "handleEvent None c =
     (if target hs \<noteq> None \<and> committed hs = Some False
      then (toggle (S ''auto'') False (snd (before_switch None c)))
             \<lparr>handlerState := Some ((fst (before_switch None c))
                \<lparr>action := Some ''auto'', committed := Some True\<rparr>)\<rparr>
      else (snd (before_switch None c))
             \<lparr>handlerState := Some ((fst (before_switch None c))\<lparr>action := Some ''ignore''\<rparr>)\<rparr>)"
proof -
  have ev: "event_node None = None" "event_owner None = None" "trigger_of None = None"
    by (simp_all add: event_node_def event_owner_def trigger_of_def)
  show ?thesis
    unfolding handleEvent_steps ev
    using assms
    by (simp add: dispatch_timer pre_handler)
qed

section \<open>The long-press timeout\<close>

lemma clamp_rounded:
  fixes n :: int
  shows "(if js_gt (Fin (of_int n)) (Fin 0) then
        (let t1 = (if js_le (Fin (of_int n)) (Fin 10000) then Fin (of_int n) else Fin 10000);
             t2 = (if js_ge t1 (Fin 1500) then t1 else Fin 1500)
         in t2)
      else Fin 2000) =
     (if n \<le> 0 then Fin 2000
      else if n < 1500 then Fin 1500
      else if 10000 < n then Fin 10000
      else Fin (of_int n))"
  by (auto simp add: js_gt_def js_le_def js_ge_def Let_def)

lemma resolve_finite:
  "resolveLongPressTimeout (Some (Fin x)) =
     (if \<lfloor>x + 1 / 2\<rfloor> \<le> 0 then Fin 2000
      else if \<lfloor>x + 1 / 2\<rfloor> < 1500 then Fin 1500
      else if 10000 < \<lfloor>x + 1 / 2\<rfloor> then Fin 10000
      else Fin (of_int \<lfloor>x + 1 / 2\<rfloor>))"
proof -
  define n where "n = \<lfloor>x + 1 / 2\<rfloor>"
  have "resolveLongPressTimeout (Some (Fin x)) =
      (if js_gt (Fin (of_int n)) (Fin 0) then
        (let t1 = (if js_le (Fin (of_int n)) (Fin 10000) then Fin (of_int n) else Fin 10000);
             t2 = (if js_ge t1 (Fin 1500) then t1 else Fin 1500)
         in t2)
      else Fin 2000)"
    unfolding resolveLongPressTimeout_def n_def by (simp add: Let_def)
  then show ?thesis
    unfolding clamp_rounded n_def .
qed

lemma clamped_in_range:
  fixes n :: int
  shows "js_ge (if n \<le> 0 then Fin 2000 else if n < 1500 then Fin 1500
                else if 10000 < n then Fin 10000 else Fin (of_int n)) (Fin 1500)
       \<and> js_le (if n \<le> 0 then Fin 2000 else if n < 1500 then Fin 1500
                else if 10000 < n then Fin 10000 else Fin (of_int n)) (Fin 10000)"
  by (auto simp add: js_le_def js_ge_def)

lemma resolve_in_range:
  "js_ge (resolveLongPressTimeout opt) (Fin 1500) \<and> js_le (resolveLongPressTimeout opt) (Fin 10000)"
proof (cases opt)
  case None
  then show ?thesis
    by (simp add: resolveLongPressTimeout_def js_gt_def js_le_def js_ge_def)
next
  case (Some n)
  show ?thesis
  proof (cases n)
    case (Fin x)
    show ?thesis
      unfolding Some Fin resolve_finite by (rule clamped_in_range)
  qed (simp_all add: Some resolveLongPressTimeout_def js_gt_def js_le_def js_ge_def)
qed

text \<open>
  C7, as amended. The resolved timeout always lies in [1500, 10000]. A missing option,
  NaN and minus infinity resolve to the default 2000, and so does every number that
  rounds to zero or below; a positive number that rounds below 1500 resolves to 1500, one
  that rounds above 10000 (or plus infinity) to 10000, and any other to its rounded
  value.
\<close>

theorem longPressTimeout_clamped:
  "js_ge (resolveLongPressTimeout opt) (Fin 1500)
   \<and> js_le (resolveLongPressTimeout opt) (Fin 10000)
   \<and> (opt = None \<or> opt = Some NaN \<or> opt = Some NegInf \<longrightarrow> resolveLongPressTimeout opt = Fin 2000)
   \<and> (opt = Some PosInf \<longrightarrow> resolveLongPressTimeout opt = Fin 10000)
   \<and> (\<forall>x. opt = Some (Fin x) \<longrightarrow>
          resolveLongPressTimeout opt =
            (if \<lfloor>x + 1 / 2\<rfloor> \<le> 0 then Fin 2000
             else if \<lfloor>x + 1 / 2\<rfloor> < 1500 then Fin 1500
             else if 10000 < \<lfloor>x + 1 / 2\<rfloor> then Fin 10000
             else Fin (of_int \<lfloor>x + 1 / 2\<rfloor>)))"
proof -
  have "opt = None \<or> opt = Some NaN \<or> opt = Some NegInf \<longrightarrow> resolveLongPressTimeout opt = Fin 2000"
    by (auto simp add: resolveLongPressTimeout_def js_gt_def)
  moreover have "opt = Some PosInf \<longrightarrow> resolveLongPressTimeout opt = Fin 10000"
    by (simp add: resolveLongPressTimeout_def js_gt_def js_le_def js_ge_def)
  moreover have "\<forall>x. opt = Some (Fin x) \<longrightarrow>
          resolveLongPressTimeout opt =
            (if \<lfloor>x + 1 / 2\<rfloor> \<le> 0 then Fin 2000
             else if \<lfloor>x + 1 / 2\<rfloor> < 1500 then Fin 1500
             else if 10000 < \<lfloor>x + 1 / 2\<rfloor> then Fin 10000
             else Fin (of_int \<lfloor>x + 1 / 2\<rfloor>))"
    using resolve_finite by blast
  ultimately show ?thesis
    using resolve_in_range [of opt] by blast
qed

theorem longPressTimeout_clamped_witness:
  "resolveLongPressTimeout (Some (Fin 20000)) = Fin 10000
   \<and> resolveLongPressTimeout (Some (Fin 500)) = Fin 1500
   \<and> resolveLongPressTimeout None = Fin 2000"
  using longPressTimeout_clamped [of "Some (Fin 20000)"]
        longPressTimeout_clamped [of "Some (Fin 500)"]
        longPressTimeout_clamped [of None]
  by simp

text \<open>The claim as the specification states it fails at 500: the value is out of range
  and the result is 1500, not the default.\<close>

theorem longPressTimeout_out_of_range_counterexample:
  "\<not> js_ge (Fin 500) (Fin 1500) \<and> resolveLongPressTimeout (Some (Fin 500)) \<noteq> Fin 2000"
  by (simp add: resolveLongPressTimeout_def js_gt_def js_le_def js_ge_def)

section \<open>The gesture\<close>

lemmas trigger_defs = trigger_of_def matchTrigger_def matches_ci_def lower_code_def
  word_here_def word_char_def pointer_event_def media_event_def element_7_def

text \<open>
  C3. A down-event whose target and owner document resolve starts a capture: the target
  is pending, \<open>committed\<close> is \<open>false\<close> and a timer is started. When the next event
  is an up-event on the same target, the two events together perform exactly one toggle,
  the call \<open>toggle()\<close>, which inverts the marker on the container and sets the mode to
  match: \<open>disabled\<close> when the container showed the dark marker, \<open>enabled\<close> when it
  did not. Where the mode agreed with the marker, \<open>enabled\<close> becomes \<open>disabled\<close> and
  \<open>disabled\<close> becomes \<open>enabled\<close>. The timer started by the down-event is cleared, and
  the handler is idle again: no target, no \<open>committed\<close>, no timer.
\<close>

theorem tap_toggles_once:
  assumes down: "trigger_of (Some d) = Some ''mousedown'' \<or> trigger_of (Some d) = Some ''pointerdown''"
    and d_target: "ev_target d = Some t" and d_owner: "ownerDocument t = Some doc"
    and up: "trigger_of (Some u) = Some ''mouseup'' \<or> trigger_of (Some u) = Some ''pointerup''"
    and u_target: "ev_target u = Some t'" and same: "nodeId t' = nodeId t"
  shows "(\<exists>hs1. handlerState (handleEvent (Some d) c) = Some hs1
            \<and> target hs1 = Some (nodeId t) \<and> committed hs1 = Some False
            \<and> timeout hs1 = Some (nextTimer c))
       \<and> nextTimer c \<in> timers (handleEvent (Some d) c)
       \<and> toggles (deliver [Some d, Some u] c) = toggles c @ [Toggle Undef False]
       \<and> state (deliver [Some d, Some u] c) =
           Some (if ''dark-mode'' \<in> classList c then ''disabled'' else ''enabled'')
       \<and> (markers_agree c \<longrightarrow>
             (state c = Some ''enabled'' \<longrightarrow> state (deliver [Some d, Some u] c) = Some ''disabled'')
           \<and> (state c = Some ''disabled'' \<longrightarrow> state (deliver [Some d, Some u] c) = Some ''enabled''))
       \<and> classList (deliver [Some d, Some u] c) =
           (if ''dark-mode'' \<in> classList c
            then insert ''light-mode'' (classList c) - {''dark-mode''}
            else insert ''dark-mode'' (classList c) - {''light-mode''})
       \<and> nextTimer c \<notin> timers (deliver [Some d, Some u] c)
       \<and> (\<exists>hs2. handlerState (deliver [Some d, Some u] c) = Some hs2
            \<and> action hs2 = Some ''toggle'' \<and> target hs2 = None \<and> committed hs2 = None
            \<and> timeout hs2 = None)"
proof -
  let ?c1 = "handleEvent (Some d) c"
  let ?c2 = "handleEvent (Some u) ?c1"
  note c1 = handleEvent_down [OF down d_target d_owner, of c]
  obtain hs1 where hs1: "handlerState ?c1 = Some hs1" "target hs1 = Some (nodeId t)"
    "committed hs1 = Some False" "timeout hs1 = Some (nextTimer c)"
    by (simp add: c1)
  have frame1: "toggles ?c1 = toggles c" "classList ?c1 = classList c"
    "nextTimer c \<in> timers ?c1"
    by (simp_all add: c1 record_call_def toggles_def pre_frame [unfolded toggles_def])
  have c2: "?c2 = (toggle Undef False (snd (before_switch (event_owner (Some u)) ?c1)))
             \<lparr>handlerState := Some ((fst (before_switch (event_owner (Some u)) ?c1))
                \<lparr>action := Some ''toggle'', committed := None, target := None\<rparr>)\<rparr>"
    using handleEvent_up [OF up hs1(1,2)] u_target same hs1(3) by simp
  have tog: "toggles ?c2 = toggles c @ [Toggle Undef False]"
    by (subst c2) (simp add: toggles_def toggle_toggles [unfolded toggles_def]
        pre_frame [unfolded toggles_def] frame1 [unfolded toggles_def])
  have st: "state ?c2 = Some (if ''dark-mode'' \<in> classList c then ''disabled'' else ''enabled'')"
    by (subst c2) (simp add: toggle_invert pre_frame frame1)
  have cl: "classList ?c2 =
           (if ''dark-mode'' \<in> classList c
            then insert ''light-mode'' (classList c) - {''dark-mode''}
            else insert ''dark-mode'' (classList c) - {''light-mode''})"
    by (subst c2) (simp add: toggle_invert pre_frame frame1)
  have tm: "nextTimer c \<notin> timers ?c2"
    by (subst c2) (simp add: toggle_frame pre_frame hs1)
  have hs2: "\<exists>hs2. handlerState ?c2 = Some hs2
            \<and> action hs2 = Some ''toggle'' \<and> target hs2 = None \<and> committed hs2 = None
            \<and> timeout hs2 = None"
    by (subst c2) (simp add: pre_handler)
  have agree: "markers_agree c \<longrightarrow>
             (state c = Some ''enabled'' \<longrightarrow> state ?c2 = Some ''disabled'')
           \<and> (state c = Some ''disabled'' \<longrightarrow> state ?c2 = Some ''enabled'')"
    unfolding st by (simp add: markers_agree_def)
  show ?thesis
    using hs1 frame1(3) tog st agree cl tm hs2 by simp
qed

theorem tap_toggles_once_witness:
  "toggles (deliver [Some (pointer_event ''mousedown''), Some (pointer_event ''mouseup'')]
      fresh_controller) = [Toggle (B False) True, Toggle Undef False]
   \<and> state (deliver [Some (pointer_event ''mousedown''), Some (pointer_event ''mouseup'')]
      fresh_controller) = Some ''enabled''
   \<and> Suc 0 \<notin> timers (deliver [Some (pointer_event ''mousedown''), Some (pointer_event ''mouseup'')]
      fresh_controller)"
proof -
  have h1: "trigger_of (Some (pointer_event ''mousedown'')) = Some ''mousedown''
            \<or> trigger_of (Some (pointer_event ''mousedown'')) = Some ''pointerdown''"
    by (simp add: trigger_defs)
  have h2: "ev_target (pointer_event ''mousedown'') = Some element_7"
    by (simp add: pointer_event_def)
  have h3: "ownerDocument element_7 = Some 0"
    by (simp add: element_7_def)
  have h4: "trigger_of (Some (pointer_event ''mouseup'')) = Some ''mouseup''
            \<or> trigger_of (Some (pointer_event ''mouseup'')) = Some ''pointerup''"
    by (simp add: trigger_defs)
  have h5: "ev_target (pointer_event ''mouseup'') = Some element_7"
    by (simp add: pointer_event_def)
  show ?thesis
    using tap_toggles_once [OF h1 h2 h3 h4 h5 refl, of fresh_controller]
    by (simp add: fresh_controller_def toggles_def)
qed

text \<open>
  C4. A down-event whose target and owner document resolve, followed by the timer
  callback (the handler called with no event), performs exactly one toggle, the call
  \<open>toggle('auto')\<close>, and leaves the mode \<open>auto\<close> with \<open>committed\<close> true and the target
  still pending. An up-event that arrives next, on the same target or on any other, is
  classified \<open>release\<close>: it performs no further toggle, the mode stays \<open>auto\<close> and the
  handler is idle.
\<close>

theorem long_press_reverts_to_auto:
  assumes down: "trigger_of (Some d) = Some ''mousedown'' \<or> trigger_of (Some d) = Some ''pointerdown''"
    and d_target: "ev_target d = Some t" and d_owner: "ownerDocument t = Some doc"
    and up: "trigger_of (Some u) = Some ''mouseup'' \<or> trigger_of (Some u) = Some ''pointerup''"
  shows "toggles (deliver [Some d, None] c) = toggles c @ [Toggle (S ''auto'') False]
       \<and> state (deliver [Some d, None] c) = Some ''auto''
       \<and> (\<exists>hs. handlerState (deliver [Some d, None] c) = Some hs
            \<and> action hs = Some ''auto'' \<and> committed hs = Some True
            \<and> target hs = Some (nodeId t) \<and> timeout hs = None)
       \<and> nextTimer c \<notin> timers (deliver [Some d, None] c)
       \<and> toggles (deliver [Some d, None, Some u] c) = toggles c @ [Toggle (S ''auto'') False]
       \<and> state (deliver [Some d, None, Some u] c) = Some ''auto''
       \<and> (\<exists>hs. handlerState (deliver [Some d, None, Some u] c) = Some hs
            \<and> action hs = Some ''release'' \<and> committed hs = None
            \<and> target hs = None \<and> timeout hs = None)"
proof -
  let ?c1 = "handleEvent (Some d) c"
  let ?c2 = "handleEvent None ?c1"
  let ?c3 = "handleEvent (Some u) ?c2"
  note c1 = handleEvent_down [OF down d_target d_owner, of c]
  obtain hs1 where hs1: "handlerState ?c1 = Some hs1" "target hs1 = Some (nodeId t)"
    "committed hs1 = Some False" "timeout hs1 = Some (nextTimer c)"
    by (simp add: c1)
  have frame1: "toggles ?c1 = toggles c"
    by (simp add: c1 record_call_def toggles_def pre_frame [unfolded toggles_def])
  have c2: "?c2 = (toggle (S ''auto'') False (snd (before_switch None ?c1)))
             \<lparr>handlerState := Some ((fst (before_switch None ?c1))
                \<lparr>action := Some ''auto'', committed := Some True\<rparr>)\<rparr>"
    using handleEvent_timer [OF hs1(1)] hs1(2,3) by simp
  have tog2: "toggles ?c2 = toggles c @ [Toggle (S ''auto'') False]"
    by (subst c2) (simp add: toggles_def toggle_toggles [unfolded toggles_def]
        pre_frame [unfolded toggles_def] frame1 [unfolded toggles_def])
  have st2: "state ?c2 = Some ''auto''"
    by (subst c2) (simp add: toggle_auto)
  have tm2: "nextTimer c \<notin> timers ?c2"
    by (subst c2) (simp add: toggle_frame pre_frame hs1)
  obtain hs2 where hs2: "handlerState ?c2 = Some hs2" "action hs2 = Some ''auto''"
    "committed hs2 = Some True" "target hs2 = Some (nodeId t)" "timeout hs2 = None"
    by (subst (asm) c2) (simp add: pre_handler hs1)
  have c3: "?c3 = (snd (before_switch (event_owner (Some u)) ?c2))
             \<lparr>handlerState := Some (release (fst (before_switch (event_owner (Some u)) ?c2)))\<rparr>"
    using handleEvent_up [OF up hs2(1,4)] hs2(3) by simp
  have tog3: "toggles ?c3 = toggles ?c2"
    by (subst c3) (simp add: toggles_def pre_frame [unfolded toggles_def])
  have st3: "state ?c3 = Some ''auto''"
    by (subst c3) (simp add: pre_frame st2)
  have hs3: "\<exists>hs. handlerState ?c3 = Some hs
            \<and> action hs = Some ''release'' \<and> committed hs = None
            \<and> target hs = None \<and> timeout hs = None"
    by (subst c3) (simp add: release_def pre_handler)
  show ?thesis
    using tog2 st2 hs2 tm2 tog3 st3 hs3 by simp
qed

theorem long_press_reverts_to_auto_witness:
  "toggles (deliver [Some (pointer_event ''pointerdown''), None, Some (pointer_event ''pointerup'')]
      fresh_controller) = [Toggle (B False) True, Toggle (S ''auto'') False]
   \<and> state (deliver [Some (pointer_event ''pointerdown''), None, Some (pointer_event ''pointerup'')]
      fresh_controller) = Some ''auto''"
proof -
  have h1: "trigger_of (Some (pointer_event ''pointerdown'')) = Some ''mousedown''
            \<or> trigger_of (Some (pointer_event ''pointerdown'')) = Some ''pointerdown''"
    by (simp add: trigger_defs)
  have h2: "ev_target (pointer_event ''pointerdown'') = Some element_7"
    by (simp add: pointer_event_def)
  have h3: "ownerDocument element_7 = Some 0"
    by (simp add: element_7_def)
  have h4: "trigger_of (Some (pointer_event ''pointerup'')) = Some ''mouseup''
            \<or> trigger_of (Some (pointer_event ''pointerup'')) = Some ''pointerup''"
    by (simp add: trigger_defs)
  show ?thesis
    using long_press_reverts_to_auto [OF h1 h2 h3 h4, of fresh_controller]
    by (simp add: fresh_controller_def toggles_def)
qed

section \<open>The timer and the pending target\<close>

lemmas eval_defs = handleEvent_def obtain_handlerState_def clear_pending_timeout_def
  register_document_def setTimeout_def release_def dispatch_def addEventListener_def
  removeEventListener_def upEventName_def add_once_def record_call_def
  toggle_def storage_write_def nextState_of_def apply_classes_def Let_def

lemma dispatch_down_any:
  "trigger = Some ''mousedown'' \<or> trigger = Some ''pointerdown'' \<Longrightarrow>
   dispatch trigger e tgt od hs c =
     (case (tgt, od) of
           (Some t, Some d) \<Rightarrow>
             (hs\<lparr>action := Some ''capture'', committed := Some False,
                 target := Some (nodeId t), timeout := Some (nextTimer c)\<rparr>,
              record_call (SetTimeout (nextTimer c) (longPressTimeout c))
                (c\<lparr>timers := insert (nextTimer c) (timers c), nextTimer := Suc (nextTimer c)\<rparr>))
         | _ \<Rightarrow>
             if target hs = None then (hs\<lparr>action := Some ''ignore''\<rparr>, c)
             else (release hs, c))"
  by (erule disjE; simp add: dispatch_def setTimeout_def Let_def split: option.splits)

lemma handleEvent_handler_exists: "\<exists>hs. handlerState (handleEvent e c) = Some hs"
  by (simp add: handleEvent_steps)

lemma recognised_cases:
  assumes "recognised trigger"
  obtains "trigger = None"
  | "trigger = Some ''dark'' \<or> trigger = Some ''light''"
  | "trigger = Some ''mouseup'' \<or> trigger = Some ''pointerup''"
  | "trigger = Some ''mousedown'' \<or> trigger = Some ''pointerdown''"
  using assms unfolding recognised_def by (elim disjE) simp_all

lemma handleEvent_recognised_invariant:
  assumes "recognised (trigger_of e)" and "handlerState (handleEvent e c) = Some hs"
  shows "timer_invariant hs"
  using assms(1)
proof (cases rule: recognised_cases)
  case 1
  with assms(2) show ?thesis
    by (auto simp add: handleEvent_steps dispatch_timer pre_handler timer_invariant_def
        split: if_splits)
next
  case 2
  with assms(2) show ?thesis
    by (auto simp add: handleEvent_steps dispatch_scheme pre_handler timer_invariant_def)
next
  case 3
  with assms(2) show ?thesis
    by (auto simp add: handleEvent_steps dispatch_up pre_handler timer_invariant_def release_def
        split: if_splits)
next
  case 4
  with assms(2) show ?thesis
    by (auto simp add: handleEvent_steps dispatch_down_any pre_handler timer_invariant_def
        release_def split: if_splits option.splits)
qed

lemma handleEvent_unrecognised:
  assumes "\<not> recognised (trigger_of e)" and "handlerState (handleEvent e c) = Some hs"
  shows "timeout hs = None
       \<and> target hs = (case handlerState c of None \<Rightarrow> None | Some h \<Rightarrow> target h)
       \<and> committed hs = (case handlerState c of None \<Rightarrow> None | Some h \<Rightarrow> committed h)"
  using assms(2)
  by (auto simp add: handleEvent_steps dispatch_default [OF assms(1)] pre_handler)

lemma deliver_snoc: "deliver (es @ [e]) c = handleEvent e (deliver es c)"
  by (induction es arbitrary: c) simp_all

text \<open>
  C6, as amended. After any non-empty sequence of delivered events the handler state
  exists, and the timer handle is set only if a target is pending and \<open>committed\<close> is
  \<open>false\<close>. The converse holds as well, so the invariant holds as an equivalence,
  whenever the last delivered event is one the \<open>switch\<close> has a case for (the timer
  callback included); an event that reaches the \<open>default\<close> branch has had the timer
  cleared and leaves target and \<open>committed\<close> as they were.
\<close>

theorem timer_set_only_while_capturing:
  assumes "es \<noteq> []"
  shows "\<exists>hs. handlerState (deliver es c) = Some hs
           \<and> (timeout hs \<noteq> None \<longrightarrow> target hs \<noteq> None \<and> committed hs = Some False)
           \<and> (recognised (trigger_of (last es)) \<longrightarrow> timer_invariant hs)"
proof -
  from assms have es: "es = butlast es @ [last es]"
    by simp
  let ?c = "deliver (butlast es) c"
  have step: "deliver es c = handleEvent (last es) ?c"
    by (subst es) (simp only: deliver_snoc)
  obtain hs where hs: "handlerState (handleEvent (last es) ?c) = Some hs"
    using handleEvent_handler_exists by blast
  have inv: "recognised (trigger_of (last es)) \<longrightarrow> timer_invariant hs"
    using handleEvent_recognised_invariant hs by blast
  have "timeout hs \<noteq> None \<longrightarrow> target hs \<noteq> None \<and> committed hs = Some False"
  proof (cases "recognised (trigger_of (last es))")
    case True
    with inv show ?thesis
      by (simp add: timer_invariant_def)
  next
    case False
    then show ?thesis
      using handleEvent_unrecognised [OF False hs] by simp
  qed
  with hs inv show ?thesis
    unfolding step by simp
qed

theorem timer_set_only_while_capturing_witness:
  "map_option timer_invariant
     (handlerState (deliver [Some (pointer_event ''mousedown'')] fresh_controller)) = Some True"
  using timer_set_only_while_capturing [of "[Some (pointer_event ''mousedown'')]" fresh_controller]
  by (auto simp add: trigger_defs recognised_def)

text \<open>The invariant as the specification states it fails after a down-event followed by
  an event whose type is matched by the regular expression in upper case and so by no
  case of the \<open>switch\<close>: the timer is cleared while the target stays pending with
  \<open>committed\<close> false.\<close>

theorem timer_invariant_counterexample:
  "map_option timer_invariant
     (handlerState (deliver [Some (pointer_event ''mousedown''), Some (pointer_event ''MOUSEDOWN'')]
        fresh_controller)) = Some False"
  by (simp add: eval_defs trigger_defs fresh_controller_def timer_invariant_def)

section \<open>System preference changes\<close>

lemma handleEvent_scheme:
  assumes "trigger_of (Some e) = Some ''dark'' \<or> trigger_of (Some e) = Some ''light''"
  shows "handleEvent (Some e) c =
     (if ev_matches e
      then toggle (B (trigger_of (Some e) = Some ''dark'')) True
             (snd (before_switch (event_owner (Some e)) c))
      else snd (before_switch (event_owner (Some e)) c))
     \<lparr>handlerState := Some ((fst (before_switch (event_owner (Some e)) c))
         \<lparr>committed := None, target := None\<rparr>)\<rparr>"
  unfolding handleEvent_steps
  by (simp add: dispatch_scheme [OF assms])

lemma toggle_auto_driven:
  assumes "state c = Some ''auto''" and "localStorage c = Some m" and "key c \<noteq> []"
  shows "state (toggle (B b) True c) = Some ''auto''"
    and "prefers (toggle (B b) True c) = Some (if b then ''dark'' else ''light'')"
    and "localStorage (toggle (B b) True c) = Some (m(key c \<mapsto> ''auto''))"
    and "storage_writes (toggle (B b) True c) = storage_writes c @ [StorageWrite (key c) ''auto'']"
    and "classList (toggle (B b) True c) =
          (if b then insert ''dark-mode'' (classList c) - {''light-mode''}
           else insert ''light-mode'' (classList c) - {''dark-mode''})"
  using assms
  by (simp_all add: toggle_unfold Let_def storage_write_def apply_classes_def record_call_def
      nextState_of_def storage_writes_def)

text \<open>
  C8, as amended. For a controller in mode \<open>auto\<close> with a store, a preference-change
  event that reports a match applies the marker of that scheme, keeps the mode \<open>auto\<close>,
  and performs exactly one storage write, which stores \<open>'auto'\<close> under the key of the
  controller; the persisted value is \<open>'auto'\<close> afterwards.
\<close>

theorem preference_change_in_auto_mode:
  assumes "state c = Some ''auto''" and "localStorage c = Some m" and "key c \<noteq> []"
    and "trigger_of (Some e) = Some ''dark'' \<or> trigger_of (Some e) = Some ''light''"
    and "ev_matches e"
  shows "classList (handleEvent (Some e) c) =
           (if trigger_of (Some e) = Some ''dark''
            then insert ''dark-mode'' (classList c) - {''light-mode''}
            else insert ''light-mode'' (classList c) - {''dark-mode''})
       \<and> state (handleEvent (Some e) c) = Some ''auto''
       \<and> storage_writes (handleEvent (Some e) c) =
           storage_writes c @ [StorageWrite (key c) ''auto'']
       \<and> localStorage (handleEvent (Some e) c) = Some (m(key c \<mapsto> ''auto''))"
proof -
  let ?c2 = "snd (before_switch (event_owner (Some e)) c)"
  have pre: "state ?c2 = Some ''auto''" "localStorage ?c2 = Some m" "key ?c2 \<noteq> []"
    using assms(1-3) by (simp_all add: pre_frame)
  have step: "handleEvent (Some e) c =
      (toggle (B (trigger_of (Some e) = Some ''dark'')) True ?c2)
        \<lparr>handlerState := Some ((fst (before_switch (event_owner (Some e)) c))
           \<lparr>committed := None, target := None\<rparr>)\<rparr>"
    using handleEvent_scheme [OF assms(4), of c] assms(5) by simp
  show ?thesis
    unfolding step
    by (simp add: toggle_auto_driven [OF pre] storage_writes_def
        toggle_auto_driven(4) [OF pre, unfolded storage_writes_def]
        pre_frame pre_frame(10) [unfolded storage_writes_def])
qed

theorem preference_change_in_auto_mode_witness:
  "classList (handleEvent (Some (media_event ''(prefers-color-scheme: dark)'' True)) fresh_controller)
     = {''dark-mode''}
   \<and> storage_writes (handleEvent (Some (media_event ''(prefers-color-scheme: dark)'' True))
        fresh_controller)
     = [StorageWrite ''dark-mode-state@/'' ''auto'', StorageWrite ''dark-mode-state@/'' ''auto'',
        StorageWrite ''dark-mode-state@/'' ''auto'']"
proof -
  have h1: "state fresh_controller = Some ''auto''"
    and h2: "localStorage fresh_controller = Some [''dark-mode-state@/'' \<mapsto> ''auto'']"
    and h3: "key fresh_controller \<noteq> []"
    by (simp_all add: fresh_controller_def)
  have h4: "trigger_of (Some (media_event ''(prefers-color-scheme: dark)'' True)) = Some ''dark''
          \<or> trigger_of (Some (media_event ''(prefers-color-scheme: dark)'' True)) = Some ''light''"
    by (simp add: trigger_defs)
  have h5: "ev_matches (media_event ''(prefers-color-scheme: dark)'' True)"
    by (simp add: media_event_def)
  have t: "trigger_of (Some (media_event ''(prefers-color-scheme: dark)'' True)) = Some ''dark''"
    by (simp add: trigger_defs)
  show ?thesis
    using preference_change_in_auto_mode [OF h1 h2 h3 h4 h5]
    by (auto simp add: t fresh_controller_def storage_writes_def)
qed

text \<open>The claim as the specification states it fails on the controller constructed over
  an empty store: the event adds a third storage write to the two of the constructor.\<close>

theorem preference_change_writes_counterexample:
  "state fresh_controller = Some ''auto''
   \<and> storage_writes fresh_controller =
       [StorageWrite ''dark-mode-state@/'' ''auto'', StorageWrite ''dark-mode-state@/'' ''auto'']
   \<and> storage_writes (handleEvent (Some (media_event ''(prefers-color-scheme: dark)'' True))
        fresh_controller)
     = [StorageWrite ''dark-mode-state@/'' ''auto'', StorageWrite ''dark-mode-state@/'' ''auto'',
        StorageWrite ''dark-mode-state@/'' ''auto'']"
  by (simp add: eval_defs trigger_defs fresh_controller_def storage_writes_def)

section \<open>Explicit toggles\<close>

text \<open>
  C9. \<open>toggle(true)\<close> sets the mode to \<open>enabled\<close> and the dark marker; a second
  \<open>toggle(true)\<close> leaves the mode \<open>enabled\<close> and changes neither the class list of
  the container nor the content of the store.
\<close>

theorem toggle_true_idempotent:
  "state (toggle (B True) False c) = Some ''enabled''
   \<and> state (toggle (B True) False (toggle (B True) False c)) = Some ''enabled''
   \<and> classList (toggle (B True) False (toggle (B True) False c)) = classList (toggle (B True) False c)
   \<and> localStorage (toggle (B True) False (toggle (B True) False c)) = localStorage (toggle (B True) False c)
   \<and> ''dark-mode'' \<in> classList (toggle (B True) False c)
   \<and> ''light-mode'' \<notin> classList (toggle (B True) False c)"
  by (cases "localStorage c")
     (auto simp add: toggle_unfold Let_def storage_write_def apply_classes_def record_call_def
      nextState_of_def)

theorem toggle_true_idempotent_witness:
  "state (toggle (B True) False (toggle (B True) False fresh_controller)) = Some ''enabled''
   \<and> classList (toggle (B True) False (toggle (B True) False fresh_controller)) = {''dark-mode''}"
  using toggle_true_idempotent [of fresh_controller]
  by (auto simp add: toggle_unfold Let_def storage_write_def apply_classes_def record_call_def
      nextState_of_def fresh_controller_def)

section \<open>Construction\<close>

lemma define_properties_fresh:
  assumes "define_properties container opts h = Live c0"
  shows "state c0 = None" and "handlerState c0 = None" and "prefers c0 = None"
    and "key c0 \<noteq> []" and "trace c0 = []" and "listeners c0 = []" and "feedListeners c0 = []"
  using assms
  by (auto simp add: define_properties_def Let_def split: option.splits if_splits)

lemma construct_Live:
  "construct container opts h = Live c \<longleftrightarrow>
     (\<exists>c0. define_properties container opts h = Live c0 \<and> c = resolve_initial_state c0)"
  by (auto simp add: construct_def split: construct_result.splits)

lemma subscribe_feeds_frame:
  "state (subscribe_feeds c) = state c" "classList (subscribe_feeds c) = classList c"
  "localStorage (subscribe_feeds c) = localStorage c" "handlerState (subscribe_feeds c) = handlerState c"
  "key (subscribe_feeds c) = key c" "prefers (subscribe_feeds c) = prefers c"
  by (simp_all add: subscribe_feeds_def addFeedListener_def record_call_def Let_def
      split: option.splits)

lemma toggle_store_kept:
  "localStorage c = Some m \<Longrightarrow> \<exists>m'. localStorage (toggle st a c) = Some m'"
  by (simp add: toggle_unfold Let_def storage_write_def apply_classes_def record_call_def)

lemma toggle_explicit:
  "state (toggle (B b) False c) = Some (if b then ''enabled'' else ''disabled'')"
  "classList (toggle (B b) False c) =
     (if b then insert ''dark-mode'' (classList c) - {''light-mode''}
      else insert ''light-mode'' (classList c) - {''dark-mode''})"
  by (simp_all add: toggle_unfold Let_def storage_write_frame apply_classes_frame nextState_of_def)
     (simp_all add: apply_classes_def storage_write_frame)

lemma resolve_initial_state_no_store:
  "localStorage c = None \<Longrightarrow> resolve_initial_state c = c"
  by (simp add: resolve_initial_state_def)

lemma resolve_initial_state_store:
  assumes "localStorage c = Some m" and "key c \<noteq> []"
  shows "resolve_initial_state c =
     subscribe_feeds
       (if m (key c) = Some ''enabled'' then toggle (B True) False (c\<lparr>state := Some ''enabled''\<rparr>)
        else if m (key c) = Some ''disabled'' then toggle (B False) False (c\<lparr>state := Some ''disabled''\<rparr>)
        else toggle (B (prefersDarkMode (mediaQueries c) = Some True
                        \<or> prefersLightMode (mediaQueries c) \<noteq> Some True)) True
               (record_call (StorageWrite (key c) ''auto'')
                  (c\<lparr>state := Some ''auto'', localStorage := Some (m(key c \<mapsto> ''auto''))\<rparr>)))"
  using assms by (simp add: resolve_initial_state_def Let_def)

lemma resolve_initial_state_store_kept:
  assumes "localStorage c = Some m" and "key c \<noteq> []"
  shows "\<exists>m'. localStorage (resolve_initial_state c) = Some m'"
  unfolding resolve_initial_state_store [OF assms]
  using toggle_store_kept [of "c\<lparr>state := Some ''enabled''\<rparr>" m "B True" False]
    toggle_store_kept [of "c\<lparr>state := Some ''disabled''\<rparr>" m "B False" False]
    toggle_store_kept [of "record_call (StorageWrite (key c) ''auto'')
                  (c\<lparr>state := Some ''auto'', localStorage := Some (m(key c \<mapsto> ''auto''))\<rparr>)"
       "m(key c \<mapsto> ''auto'')" _ True]
  by (simp add: subscribe_feeds_frame assms record_call_def)

lemmas ctor_defs = construct_def define_properties_def resolve_initial_state_def
  getValidDocumentFrom_def getLocalStorageFromContainer_def getMediaQueriesFromContainer_def
  resolve_scope_def resolve_id_def subscribe_feeds_def addFeedListener_def add_once_def
  resolveLongPressTimeout_def js_gt_def
  toggle_def record_call_def storage_write_def nextState_of_def apply_classes_def Let_def
  example_document_def example_container_def example_host_def no_options_def

lemma construct_fresh_controller:
  "construct (Some (example_container (Some Map.empty))) no_options example_host = Live fresh_controller"
  by (simp add: ctor_defs fresh_controller_def)

text \<open>
  C1, as amended. When the constructor returns a live controller that has a store (given
  in the options or found on the window of the container), the mode is one of
  \<open>'auto'\<close>, \<open>'enabled'\<close> and \<open>'disabled'\<close>. When it has no store, the constructor
  does not resolve a state and the mode is still undefined.
\<close>

theorem constructed_mode:
  assumes "construct container opts h = Live c"
  shows "(localStorage c \<noteq> None \<longrightarrow>
            state c = Some ''auto'' \<or> state c = Some ''enabled'' \<or> state c = Some ''disabled'')
       \<and> (localStorage c = None \<longrightarrow> state c = None)"
proof -
  from assms obtain c0 where c0: "define_properties container opts h = Live c0"
    and c: "c = resolve_initial_state c0"
    by (auto simp add: construct_Live)
  note fresh = define_properties_fresh [OF c0]
  show ?thesis
  proof (cases "localStorage c0")
    case None
    then show ?thesis
      by (simp add: c resolve_initial_state_no_store fresh)
  next
    case (Some m)
    have auto_kept: "state (record_call (StorageWrite (key c0) ''auto'')
        (c0\<lparr>state := Some ''auto'', localStorage := Some (m(key c0 \<mapsto> ''auto''))\<rparr>)) = Some ''auto''"
      "localStorage (record_call (StorageWrite (key c0) ''auto'')
        (c0\<lparr>state := Some ''auto'', localStorage := Some (m(key c0 \<mapsto> ''auto''))\<rparr>)) =
         Some (m(key c0 \<mapsto> ''auto''))"
      "key (record_call (StorageWrite (key c0) ''auto'')
        (c0\<lparr>state := Some ''auto'', localStorage := Some (m(key c0 \<mapsto> ''auto''))\<rparr>)) \<noteq> []"
      by (simp_all add: record_call_def fresh)
    have "state c = Some ''auto'' \<or> state c = Some ''enabled'' \<or> state c = Some ''disabled''"
      unfolding c resolve_initial_state_store [OF Some fresh(4)]
      by (simp add: subscribe_feeds_frame toggle_explicit toggle_auto_driven(1) [OF auto_kept])
    moreover have "\<exists>m'. localStorage c = Some m'"
      unfolding c by (rule resolve_initial_state_store_kept [OF Some fresh(4)])
    ultimately show ?thesis
      by auto
  qed
qed

theorem constructed_mode_witness:
  "localStorage fresh_controller \<noteq> None
   \<and> (state fresh_controller = Some ''auto'' \<or> state fresh_controller = Some ''enabled''
        \<or> state fresh_controller = Some ''disabled'')"
  using constructed_mode [OF construct_fresh_controller]
  by (simp add: fresh_controller_def)

text \<open>The claim as the specification states it fails on a page without a store: the
  constructor returns a live controller whose mode is undefined.\<close>

theorem constructed_mode_counterexample:
  "construct (Some (example_container None)) no_options example_host = Live storeless_controller
   \<and> state storeless_controller = None"
  by (simp add: ctor_defs storeless_controller_def)

text \<open>
  C5. With a store \<open>m\<close>, the constructor resolves the state from the value persisted under
  the key: \<open>'enabled'\<close> gives mode \<open>enabled\<close> with the dark marker and without the
  light one; otherwise \<open>'disabled'\<close> gives mode \<open>disabled\<close> with the light marker and
  without the dark one; any other or no value gives mode \<open>auto\<close>, stores \<open>'auto'\<close> under
  the key, and applies the dark marker when the dark feed matches or the light feed is
  absent or does not match, the light marker otherwise.
\<close>

theorem initial_state_precedence:
  assumes "define_properties container opts h = Live c0" and "localStorage c0 = Some m"
  shows "construct container opts h = Live (resolve_initial_state c0)
       \<and> (m (key c0) = Some ''enabled'' \<longrightarrow>
             state (resolve_initial_state c0) = Some ''enabled''
             \<and> ''dark-mode'' \<in> classList (resolve_initial_state c0)
             \<and> ''light-mode'' \<notin> classList (resolve_initial_state c0))
       \<and> (m (key c0) = Some ''disabled'' \<longrightarrow>
             state (resolve_initial_state c0) = Some ''disabled''
             \<and> ''light-mode'' \<in> classList (resolve_initial_state c0)
             \<and> ''dark-mode'' \<notin> classList (resolve_initial_state c0))
       \<and> (m (key c0) \<noteq> Some ''enabled'' \<and> m (key c0) \<noteq> Some ''disabled'' \<longrightarrow>
             state (resolve_initial_state c0) = Some ''auto''
             \<and> (\<exists>m'. localStorage (resolve_initial_state c0) = Some m'
                    \<and> m' (key c0) = Some ''auto'')
             \<and> (if prefersDarkMode (mediaQueries c0) = Some True
                    \<or> prefersLightMode (mediaQueries c0) \<noteq> Some True
                 then ''dark-mode'' \<in> classList (resolve_initial_state c0)
                      \<and> ''light-mode'' \<notin> classList (resolve_initial_state c0)
                 else ''light-mode'' \<in> classList (resolve_initial_state c0)
                      \<and> ''dark-mode'' \<notin> classList (resolve_initial_state c0)))"
proof -
  note fresh = define_properties_fresh [OF assms(1)]
  note r = resolve_initial_state_store [OF assms(2) fresh(4)]
  let ?c1 = "record_call (StorageWrite (key c0) ''auto'')
        (c0\<lparr>state := Some ''auto'', localStorage := Some (m(key c0 \<mapsto> ''auto''))\<rparr>)"
  have auto_kept: "state ?c1 = Some ''auto''"
      "localStorage ?c1 = Some (m(key c0 \<mapsto> ''auto''))" "key ?c1 \<noteq> []"
    by (simp_all add: record_call_def fresh)
  have k: "key ?c1 = key c0" and cl: "classList ?c1 = classList c0"
    by (simp_all add: record_call_def)
  have 1: "construct container opts h = Live (resolve_initial_state c0)"
    by (simp add: construct_def assms(1))
  have 2: "m (key c0) = Some ''enabled'' \<longrightarrow>
             state (resolve_initial_state c0) = Some ''enabled''
             \<and> ''dark-mode'' \<in> classList (resolve_initial_state c0)
             \<and> ''light-mode'' \<notin> classList (resolve_initial_state c0)"
    by (simp add: r subscribe_feeds_frame toggle_explicit)
  have 3: "m (key c0) = Some ''disabled'' \<longrightarrow>
             state (resolve_initial_state c0) = Some ''disabled''
             \<and> ''light-mode'' \<in> classList (resolve_initial_state c0)
             \<and> ''dark-mode'' \<notin> classList (resolve_initial_state c0)"
    by (simp add: r subscribe_feeds_frame toggle_explicit)
  have 4: "m (key c0) \<noteq> Some ''enabled'' \<and> m (key c0) \<noteq> Some ''disabled'' \<longrightarrow>
             state (resolve_initial_state c0) = Some ''auto''
             \<and> (\<exists>m'. localStorage (resolve_initial_state c0) = Some m'
                    \<and> m' (key c0) = Some ''auto'')
             \<and> (if prefersDarkMode (mediaQueries c0) = Some True
                    \<or> prefersLightMode (mediaQueries c0) \<noteq> Some True
                 then ''dark-mode'' \<in> classList (resolve_initial_state c0)
                      \<and> ''light-mode'' \<notin> classList (resolve_initial_state c0)
                 else ''light-mode'' \<in> classList (resolve_initial_state c0)
                      \<and> ''dark-mode'' \<notin> classList (resolve_initial_state c0))"
    by (simp add: r subscribe_feeds_frame toggle_auto_driven [OF auto_kept] k cl)
  from 1 2 3 4 show ?thesis
    by blast
qed

theorem initial_state_precedence_witness:
  "state (resolve_initial_state (storeless_controller\<lparr>localStorage := Some Map.empty\<rparr>)) = Some ''auto''
   \<and> ''light-mode'' \<in> classList (resolve_initial_state (storeless_controller\<lparr>localStorage := Some Map.empty\<rparr>))
   \<and> state (resolve_initial_state
        (storeless_controller\<lparr>localStorage := Some [''dark-mode-state@/'' \<mapsto> ''enabled'']\<rparr>))
       = Some ''enabled''"
proof -
  have h1: "define_properties (Some (example_container (Some Map.empty))) no_options example_host
      = Live (storeless_controller\<lparr>localStorage := Some Map.empty\<rparr>)"
    by (simp add: ctor_defs storeless_controller_def)
  have h2: "localStorage (storeless_controller\<lparr>localStorage := Some Map.empty\<rparr>) = Some Map.empty"
    by simp
  have h3: "define_properties (Some (example_container (Some [''dark-mode-state@/'' \<mapsto> ''enabled''])))
        no_options example_host
      = Live (storeless_controller\<lparr>localStorage := Some [''dark-mode-state@/'' \<mapsto> ''enabled'']\<rparr>)"
    by (simp add: ctor_defs storeless_controller_def)
  have h4: "localStorage (storeless_controller\<lparr>localStorage := Some [''dark-mode-state@/'' \<mapsto> ''enabled'']\<rparr>)
      = Some [''dark-mode-state@/'' \<mapsto> ''enabled'']"
    by simp
  show ?thesis
    using initial_state_precedence [OF h1 h2] initial_state_precedence [OF h3 h4]
    by (simp add: storeless_controller_def)
qed

section \<open>detach\<close>

lemma resolve_initial_state_handler:
  "handlerState (resolve_initial_state c) = handlerState c"
  by (cases "localStorage c")
     (simp_all add: resolve_initial_state_def Let_def subscribe_feeds_frame toggle_frame
        record_call_def)

lemma toggles_keep_handler:
  "handlerState (fold (\<lambda>p. toggle (fst p) (snd p)) ts c) = handlerState c"
  by (induction ts arbitrary: c) (simp_all add: toggle_frame)

text \<open>
  C10. The constructor does not create the handler state, and neither does any sequence
  of \<open>toggle\<close> calls (\<open>enable\<close> and \<open>disable\<close> included): on a live controller that
  has not handled an event, \<open>detach\<close> throws a \<open>TypeError\<close>. The first call of
  \<open>handleEvent\<close> creates the handler state, after which \<open>detach\<close> does not throw.
\<close>

theorem detach_before_first_event:
  assumes "construct container opts h = Live c"
  shows "handlerState c = None
       \<and> detach c = Inl TypeError
       \<and> detach (fold (\<lambda>p. toggle (fst p) (snd p)) ts c) = Inl TypeError
       \<and> (\<exists>hs. handlerState (handleEvent e c) = Some hs)
       \<and> detach (handleEvent e c) \<noteq> Inl TypeError"
proof -
  from assms obtain c0 where c0: "define_properties container opts h = Live c0"
    and c: "c = resolve_initial_state c0"
    by (auto simp add: construct_Live)
  have none: "handlerState c = None"
    by (simp add: c resolve_initial_state_handler define_properties_fresh [OF c0])
  obtain hs where hs: "handlerState (handleEvent e c) = Some hs"
    using handleEvent_handler_exists by blast
  have "detach (handleEvent e c) \<noteq> Inl TypeError"
    by (simp add: detach_def hs)
  with none hs show ?thesis
    by (simp add: detach_def toggles_keep_handler)
qed

theorem detach_before_first_event_witness:
  "handlerState fresh_controller = None \<and> detach fresh_controller = Inl TypeError
   \<and> detach (toggle (B True) False fresh_controller) = Inl TypeError
   \<and> detach (handleEvent None fresh_controller) \<noteq> Inl TypeError"
  using detach_before_first_event [OF construct_fresh_controller, of "[(B True, False)]" None]
  by simp

lemma removeEventListener_frame:
  "handlerState (removeEventListener d n cp c) = handlerState c"
  "feedListeners (removeEventListener d n cp c) = feedListeners c"
  "state (removeEventListener d n cp c) = state c"
  "classList (removeEventListener d n cp c) = classList c"
  "localStorage (removeEventListener d n cp c) = localStorage c"
  by (simp_all add: removeEventListener_def record_call_def)

lemma detach_loop_frame:
  "feedListeners (detach_loop ds c) = feedListeners c
   \<and> state (detach_loop ds c) = state c
   \<and> classList (detach_loop ds c) = classList c
   \<and> localStorage (detach_loop ds c) = localStorage c"
  by (induction ds arbitrary: c) (simp_all add: removeEventListener_frame delete_target_def)

lemma filter_removeAll:
  "filter (\<lambda>x. x \<notin> set ds) (removeAll d xs) = filter (\<lambda>x. x \<noteq> d \<and> x \<notin> set ds) xs"
  by (induction xs) auto

lemma detach_loop_handler:
  "handlerState (detach_loop ds c) =
     map_option (\<lambda>hs. hs\<lparr>targets := filter (\<lambda>d. d \<notin> set ds) (targets hs)\<rparr>) (handlerState c)"
proof (induction ds arbitrary: c)
  case Nil
  then show ?case
    by (cases "handlerState c") simp_all
next
  case (Cons d ds)
  show ?case
  proof (cases "handlerState c")
    case None
    then show ?thesis
      by (simp add: Cons.IH removeEventListener_frame delete_target_def)
  next
    case (Some hs)
    then show ?thesis
      by (simp add: Cons.IH removeEventListener_frame delete_target_def filter_removeAll)
  qed
qed

text \<open>
  C2, as amended. For a controller whose handler has run, \<open>detach\<close> returns without an
  error, empties the set of registered documents and leaves the subscriptions to the
  preference feeds in place; a second \<open>detach\<close> returns without an error and changes
  nothing, so it makes no call to the host at all.
\<close>

theorem detach_empties_registry:
  assumes "handlerState c = Some hs"
  shows "\<exists>c1 hs1. detach c = Inr c1 \<and> handlerState c1 = Some hs1 \<and> targets hs1 = []
           \<and> feedListeners c1 = feedListeners c
           \<and> detach c1 = Inr c1"
proof (cases "targets hs = []")
  case True
  with assms show ?thesis
    by (simp add: detach_def)
next
  case False
  let ?c1 = "detach_loop (targets hs) c"
  have d: "detach c = Inr ?c1"
    using assms False by (simp add: detach_def)
  have h: "handlerState ?c1 = Some (hs\<lparr>targets := []\<rparr>)"
    by (simp add: detach_loop_handler assms)
  have "detach ?c1 = Inr ?c1"
    by (simp add: detach_def h)
  with d h show ?thesis
    by (simp add: detach_loop_frame)
qed

theorem detach_empties_registry_witness:
  "\<not> isl (detach (handleEvent (Some (pointer_event ''mousedown'')) fresh_controller))
   \<and> detach (projr (detach (handleEvent (Some (pointer_event ''mousedown'')) fresh_controller)))
       = Inr (projr (detach (handleEvent (Some (pointer_event ''mousedown'')) fresh_controller)))
   \<and> feedListeners (projr (detach (handleEvent (Some (pointer_event ''mousedown'')) fresh_controller)))
       = feedListeners (handleEvent (Some (pointer_event ''mousedown'')) fresh_controller)"
proof -
  obtain hs where h:
    "handlerState (handleEvent (Some (pointer_event ''mousedown'')) fresh_controller) = Some hs"
    using handleEvent_handler_exists by blast
  show ?thesis
    using detach_empties_registry [OF h] by auto
qed

text \<open>The claim as the specification states it fails after one down-event on the
  controller constructed over an empty store: the up-listener installed on document 0
  (\<open>mouseup\<close>, capture phase) is still installed after \<open>detach\<close>, and so are both feed
  subscriptions.\<close>

theorem detach_leaves_listeners_counterexample:
  "\<not> isl (detach (handleEvent (Some (pointer_event ''mousedown'')) fresh_controller))
   \<and> listeners (handleEvent (Some (pointer_event ''mousedown'')) fresh_controller)
       = [(0, ''mouseup'', True)]
   \<and> listeners (projr (detach (handleEvent (Some (pointer_event ''mousedown'')) fresh_controller)))
       = [(0, ''mouseup'', True)]
   \<and> feedListeners (projr (detach (handleEvent (Some (pointer_event ''mousedown'')) fresh_controller)))
       = [''prefersDarkMode'', ''prefersLightMode'']"
  by (simp add: eval_defs trigger_defs fresh_controller_def detach_def delete_target_def)

section \<open>The mode agrees with the marker\<close>

text \<open>
  The agreement of mode and marker that the tap relies on holds after construction and is
  kept by \<open>toggle\<close> and by every delivered event, so it holds in every state the
  controller reaches by its own operations.
\<close>

lemma markers_agree_cong:
  "state c' = state c \<Longrightarrow> classList c' = classList c \<Longrightarrow> markers_agree c' = markers_agree c"
  by (simp add: markers_agree_def)

lemma toggle_state_classes:
  "(state (toggle st a c) = state c \<and> classList (toggle st a c) = classList c)
   \<or> (\<exists>b. state (toggle st a c) = Some (if st = S ''auto'' \<or> a then ''auto''
                                        else if b then ''enabled'' else ''disabled'')
          \<and> classList (toggle st a c) =
              (if b then insert ''dark-mode'' (classList c) - {''light-mode''}
               else insert ''light-mode'' (classList c) - {''dark-mode''}))"
proof (cases "a \<and> state c \<noteq> Some ''auto''")
  case True
  then show ?thesis
    by (simp add: toggle_unfold Let_def)
next
  case False
  let ?c1 = "(c\<lparr>trace := trace c @ [Toggle st a]\<rparr>)
                 \<lparr>prefers := (if a \<and> st = B True then Some ''dark''
                              else if a \<and> st = B False then Some ''light'' else prefers c)\<rparr>"
  have "state (toggle st a c) = Some (if st = S ''auto'' \<or> a then ''auto''
                                        else if nextState_of st ?c1 then ''enabled'' else ''disabled'')
          \<and> classList (toggle st a c) =
              (if nextState_of st ?c1 then insert ''dark-mode'' (classList c) - {''light-mode''}
               else insert ''light-mode'' (classList c) - {''dark-mode''})"
    by (simp only: toggle_unfold Let_def False if_False)
       (simp add: apply_classes_def storage_write_frame)
  then show ?thesis
    by blast
qed

lemma toggle_markers_agree:
  assumes "markers_agree c"
  shows "markers_agree (toggle st a c)"
  using toggle_state_classes [of st a c]
proof (elim disjE exE conjE)
  assume "state (toggle st a c) = state c" "classList (toggle st a c) = classList c"
  then show ?thesis
    using assms by (simp add: markers_agree_def)
next
  fix b
  assume "state (toggle st a c) = Some (if st = S ''auto'' \<or> a then ''auto''
                                        else if b then ''enabled'' else ''disabled'')"
    and "classList (toggle st a c) =
              (if b then insert ''dark-mode'' (classList c) - {''light-mode''}
               else insert ''light-mode'' (classList c) - {''dark-mode''})"
  then show ?thesis
    by (simp add: markers_agree_def)
qed

lemma dispatch_markers_agree:
  assumes "markers_agree c"
  shows "markers_agree (snd (dispatch trigger e tgt od hs c))"
proof (cases "recognised trigger")
  case False
  then show ?thesis
    using assms by (simp add: dispatch_default record_call_def markers_agree_def)
next
  case True
  then show ?thesis
  proof (cases rule: recognised_cases)
    case 1
    then show ?thesis
      using assms by (simp add: dispatch_timer toggle_markers_agree)
  next
    case 2
    then show ?thesis
      using assms by (simp add: dispatch_scheme toggle_markers_agree)
  next
    case 3
    then show ?thesis
      using assms by (simp add: dispatch_up toggle_markers_agree)
  next
    case 4
    then show ?thesis
      using assms
      by (simp add: dispatch_down_any record_call_def markers_agree_def split: option.splits)
  qed
qed

lemma handleEvent_markers_agree:
  assumes "markers_agree c"
  shows "markers_agree (handleEvent e c)"
proof -
  have "markers_agree (snd (before_switch (event_owner e) c))"
    using assms by (simp add: markers_agree_def pre_frame)
  then have "markers_agree (snd (dispatch (trigger_of e) e (event_node e) (event_owner e)
            (fst (before_switch (event_owner e) c)) (snd (before_switch (event_owner e) c))))"
    by (rule dispatch_markers_agree)
  then show ?thesis
    by (subst handleEvent_steps) (simp add: markers_agree_def)
qed

lemma deliver_markers_agree:
  "markers_agree c \<Longrightarrow> markers_agree (deliver es c)"
  by (induction es arbitrary: c) (simp_all add: handleEvent_markers_agree)

lemma construct_markers_agree:
  assumes "construct container opts h = Live c"
  shows "markers_agree c"
proof -
  from assms obtain c0 where c0: "define_properties container opts h = Live c0"
    and c: "c = resolve_initial_state c0"
    by (auto simp add: construct_Live)
  note fresh = define_properties_fresh [OF c0]
  have m0: "markers_agree c0"
    by (simp add: markers_agree_def fresh)
  show ?thesis
  proof (cases "localStorage c0")
    case None
    then show ?thesis
      by (simp add: c resolve_initial_state_no_store m0)
  next
    case (Some m)
    have "markers_agree (subscribe_feeds x) = markers_agree x" for x
      by (simp add: markers_agree_def subscribe_feeds_frame)
    moreover have "markers_agree (toggle (B True) False (c0\<lparr>state := Some ''enabled''\<rparr>))"
      by (simp add: markers_agree_def toggle_explicit)
    moreover have "markers_agree (toggle (B False) False (c0\<lparr>state := Some ''disabled''\<rparr>))"
      by (simp add: markers_agree_def toggle_explicit)
    moreover have "markers_agree (toggle (B b) True
               (record_call (StorageWrite (key c0) ''auto'')
                  (c0\<lparr>state := Some ''auto'', localStorage := Some (m(key c0 \<mapsto> ''auto''))\<rparr>)))" for b
      by (rule toggle_markers_agree) (simp add: markers_agree_def record_call_def)
    ultimately show ?thesis
      unfolding c resolve_initial_state_store [OF Some fresh(4)] by simp
  qed
qed

lemma handleEvent_invoked_bound: "handleEvent_invoked (Some c) e = Inr (handleEvent e c)"
  by (simp add: handleEvent_invoked_def)

end
